theory Spec2Isabelle
  imports Main
begin

section \<open>Data model of the enigma2 plugin\<close>

text \<open>
  The plugin (\<^verbatim>\<open>src/enigma2/__init__.py\<close>) reads the state of a set-top box over
  HTTP and XML and writes it into items of the host. What lies outside the file is kept
  abstract: the box answers a request or the transport fails, a response body either
  parses (\<^verbatim>\<open>minidom.parseString\<close>) to a tree or does not, and Python's
  \<^verbatim>\<open>int\<close> and \<^verbatim>\<open>float\<close> accept a text or raise \<^verbatim>\<open>ValueError\<close>.
\<close>

text \<open>The Python exceptions that can leave a method of the plugin.\<close>

datatype exn = KeyError | AttributeError | UnboundLocalError | TypeError | ValueError | ExpatError

text \<open>
  A DOM node: an element with its tag name and child nodes, or character data (a text
  node, the only kind of node with a \<^verbatim>\<open>data\<close> attribute). The document node is an
  \<open>Element\<close> whose children are the top-level nodes; its own tag is never looked at.
\<close>

datatype node = Element string "node list" | Chars string

text \<open>A response body is represented by what \<^verbatim>\<open>minidom.parseString\<close> makes of it.\<close>

datatype body = Malformed | Markup node

text \<open>\<^verbatim>\<open>self._session.get\<close> raises (\<open>Failure\<close>) or returns a response with a body.\<close>

datatype reply = Failure | Content body

text \<open>What the plugin writes into an item: an integer, a float or a text.\<close>

datatype 'f pyval = PInt int | PFloat 'f | PStr string

text \<open>
  An item of the host: its configuration dictionary, what \<^verbatim>\<open>item.type()\<close> returns,
  and the identity of its value slot (the slots live in the engine's state below).
\<close>

record item =
  item_id :: nat
  conf :: "string \<rightharpoonup> string"
  item_type :: string

record Enigma2Device =
  host :: string
  port :: string
  ssl :: bool
  username :: string
  password :: string
  device_identifier :: string
  items :: "item list"
  items_fast :: "item list"

text \<open>
  One request sent to the box: the cache key it was made for (\<open>None\<close> when the request
  does not go through \<^verbatim>\<open>_cached_get_request\<close>), its URL and whether it returned.
\<close>

record request =
  req_key :: "string option"
  req_url :: string
  req_ok :: bool

text \<open>
  The engine with its surroundings: the fields of class \<^verbatim>\<open>Enigma2\<close> that the methods
  below use (\<open>alive\<close> is unset until \<^verbatim>\<open>run\<close>), the requests sent so far, the value
  slots of the items and the messages logged at error level. The last field is no field
  of the class either: it records every call of \<^verbatim>\<open>_update_event_items\<close>, by the
  \<open>cache\<close> argument of the call, so that the calls can be counted.
\<close>

record 'f Enigma2 =
  enigma2_device :: Enigma2Device
  response_cache :: "string \<rightharpoonup> body"
  alive :: "bool option"
  requests :: "request list"
  slots :: "nat \<rightharpoonup> 'f pyval"
  errors :: "string list"
  event_passes :: "bool list"

text \<open>
  The surroundings that the engine cannot change: the box's answer to a request,
  depending on the URL and on how many requests were sent before, and the two Python
  built-ins (\<open>None\<close> stands for \<^verbatim>\<open>ValueError\<close>).
\<close>

record 'f world =
  box :: "nat \<Rightarrow> string \<Rightarrow> reply"
  py_int :: "string \<Rightarrow> int option"
  py_float :: "string \<Rightarrow> 'f option"

section \<open>DOM access\<close>

fun descendants :: "node \<Rightarrow> node list" where
  "descendants (Element t cs) = concat (map (\<lambda>c. c # descendants c) cs)"
| "descendants (Chars d) = []"

fun has_tag :: "string \<Rightarrow> node \<Rightarrow> bool" where
  "has_tag name (Element t cs) = (name = ''*'' \<or> t = name)"
| "has_tag name (Chars d) = False"

text \<open>\<^verbatim>\<open>getElementsByTagName\<close>: the descendant elements with the tag, in document order.\<close>

definition getElementsByTagName :: "node \<Rightarrow> string \<Rightarrow> node list" where
  "getElementsByTagName n name = filter (has_tag name) (descendants n)"

fun firstChild :: "node \<Rightarrow> node option" where
  "firstChild (Element t []) = None"
| "firstChild (Element t (c # cs)) = Some c"
| "firstChild (Chars d) = None"

text \<open>\<^verbatim>\<open>node.data\<close>: an element has no such attribute.\<close>

fun data :: "node \<Rightarrow> exn + string" where
  "data (Chars d) = Inr d"
| "data (Element t cs) = Inl AttributeError"

text \<open>Python's \<^verbatim>\<open>a in b\<close> on two strings: \<open>a\<close> occurs in \<open>b\<close> as a contiguous run.\<close>

fun py_in :: "string \<Rightarrow> string \<Rightarrow> bool" where
  "py_in a [] = (a = [])"
| "py_in a (y # ys) = (take (length a) (y # ys) = a \<or> py_in a ys)"

section \<open>Requests and the response cache\<close>

definition url_suffix_map :: "(string \<times> string) list" where
  "url_suffix_map =
    [(''about'', ''/web/about''),
     (''deviceinfo'', ''/web/deviceinfo''),
     (''epgservice'', ''/web/epgservice''),
     (''getaudiotracks'', ''/web/getaudiotracks''),
     (''getcurrent'', ''/web/getcurrent''),
     (''message'', ''/web/message''),
     (''messageanswer'', ''/web/messageanswer''),
     (''powerstate'', ''/web/powerstate''),
     (''remotecontrol'', ''/web/remotecontrol''),
     (''subservices'', ''/web/subservices''),
     (''zap'', ''/web/zap'')]"

definition keys_fast_refresh :: "string list" where
  "keys_fast_refresh =
    [''current_eventtitle'', ''current_eventdescription'', ''current_eventdescriptionextended'',
     ''current_volume'', ''e2servicename'', ''e2videoheight'', ''e2videowidth'', ''e2apid'',
     ''e2vpid'', ''e2instandby'']"

definition key_event_information :: "string list" where
  "key_event_information =
    [''current_eventtitle'', ''current_eventdescription'', ''current_eventdescriptionextended'']"

definition build_url :: "Enigma2Device \<Rightarrow> string \<Rightarrow> string \<Rightarrow> string" where
  "build_url d suffix parameter =
     (if ssl d then ''https'' else ''http'') @ ''://'' @ host d @ '':'' @ port d @ suffix
       @ ''?'' @ parameter"

definition log_error :: "string \<Rightarrow> 'f Enigma2 \<Rightarrow> 'f Enigma2" where
  "log_error msg s = s\<lparr>errors := errors s @ [msg]\<rparr>"

text \<open>\<^verbatim>\<open>item(value)\<close>: the write into the item's value slot.\<close>

definition item_set :: "item \<Rightarrow> 'f pyval \<Rightarrow> 'f Enigma2 \<Rightarrow> 'f Enigma2" where
  "item_set it v s = s\<lparr>slots := (slots s)(item_id it \<mapsto> v)\<rparr>"

text \<open>
  \<^verbatim>\<open>self._session.get(url, ...)\<close>: the box's answer, and the request recorded. The
  first argument only labels the record with the cache key the request is made for.
\<close>

definition session_get ::
  "'f world \<Rightarrow> string option \<Rightarrow> string \<Rightarrow> 'f Enigma2 \<Rightarrow> reply \<times> 'f Enigma2" where
  "session_get w k u s =
     (let r = box w (length (requests s)) u
      in (r, s\<lparr>requests := requests s @ [\<lparr>req_key = k, req_url = u, req_ok = (r \<noteq> Failure)\<rparr>]\<rparr>))"

text \<open>
  \<^verbatim>\<open>_cached_get_request\<close> (lines 595-607). The exception of the request is caught and
  logged; the method returns nothing, the caller reads the cache afterwards.
\<close>

definition cached_get_request ::
  "'f world \<Rightarrow> string \<Rightarrow> string \<Rightarrow> bool \<Rightarrow> 'f Enigma2 \<Rightarrow> (exn + unit) \<times> 'f Enigma2" where
  "cached_get_request w cache_key url cache s =
     (if response_cache s cache_key = None \<or> \<not> cache then
        (case session_get w (Some cache_key) url s of
           (Failure, s1) \<Rightarrow> (Inr (), log_error ''Exception when sending GET request'' s1)
         | (Content b, s1) \<Rightarrow>
             (Inr (), s1\<lparr>response_cache := (response_cache s1)(cache_key \<mapsto> b)\<rparr>))
      else (Inr (), s))"

text \<open>\<^verbatim>\<open>_get_value_from_xml_node\<close> (lines 609-615).\<close>

definition get_value_from_xml_node :: "node \<Rightarrow> string \<Rightarrow> exn + string option" where
  "get_value_from_xml_node n tag_name =
     (case getElementsByTagName n tag_name of
        [] \<Rightarrow> Inr None
      | x # xs \<Rightarrow>
          (case firstChild x of
             None \<Rightarrow> Inr None
           | Some c \<Rightarrow> (case data c of Inl e \<Rightarrow> Inl e | Inr d \<Rightarrow> Inr (Some d))))"

section \<open>Resolving one binding\<close>

text \<open>
  Lines 571-591 of \<^verbatim>\<open>_update\<close>: the write of the located element \<open>x\<close>, one
  definition for each type of item (\<^verbatim>\<open>'bool'\<close>, \<^verbatim>\<open>'num'\<close>, any other).
\<close>

definition write_bool :: "item \<Rightarrow> node \<Rightarrow> 'f Enigma2 \<Rightarrow> (exn + unit) \<times> 'f Enigma2" where
  "write_bool it x s =
     (case firstChild x of
        None \<Rightarrow> (Inr (), s)
      | Some c \<Rightarrow>
          (case data c of
             Inl e \<Rightarrow> (Inl e, s)
           | Inr d \<Rightarrow>
               (if d = ''true'' \<or> d = ''True'' then (Inr (), item_set it (PInt 1) s)
                else (Inr (), item_set it (PInt 0) s))))"

definition write_num :: "'f world \<Rightarrow> item \<Rightarrow> node \<Rightarrow> 'f Enigma2 \<Rightarrow> (exn + unit) \<times> 'f Enigma2" where
  "write_num w it x s =
     (case firstChild x of
        None \<Rightarrow> (Inr (), s)
      | Some c \<Rightarrow>
          (case data c of
             Inl e \<Rightarrow> (Inl e, s)
           | Inr d \<Rightarrow>
               (case py_int w d of
                  Some i \<Rightarrow> (Inr (), item_set it (PInt i) s)
                | None \<Rightarrow>
                    (case py_float w d of
                       Some f \<Rightarrow> (Inr (), item_set it (PFloat f) s)
                     | None \<Rightarrow> (Inr (), s)))))"

definition write_text :: "item \<Rightarrow> node \<Rightarrow> 'f Enigma2 \<Rightarrow> (exn + unit) \<times> 'f Enigma2" where
  "write_text it x s =
     (case firstChild x of
        None \<Rightarrow> (Inr (), item_set it (PStr ''-'') s)
      | Some c \<Rightarrow>
          (case data c of
             Inl e \<Rightarrow> (Inl e, s)
           | Inr d \<Rightarrow>
               (if d = ''N/A'' then (Inr (), item_set it (PStr ''-'') s)
                else (Inr (), item_set it (PStr d) s))))"

text \<open>
  Lines 568-593 of \<^verbatim>\<open>_update\<close>: the element named by the data type is looked up in
  the parsed response and written to the item according to the item's type.
\<close>

definition write_element ::
  "'f world \<Rightarrow> item \<Rightarrow> string \<Rightarrow> node \<Rightarrow> 'f Enigma2 \<Rightarrow> (exn + unit) \<times> 'f Enigma2" where
  "write_element w it data_type xml s =
     (case getElementsByTagName xml data_type of
        [] \<Rightarrow> (Inr (), log_error ''Attribute not available on the Enigma2Device'' s)
      | x # xs \<Rightarrow>
          (if item_type it = ''bool'' then write_bool it x s
           else if item_type it = ''num'' then write_num w it x s
           else write_text it x s))"

text \<open>
  \<^verbatim>\<open>_update\<close> (lines 547-593). The two dictionary lookups of line 558 raise
  \<^verbatim>\<open>KeyError\<close> outside any \<^verbatim>\<open>try\<close>; the lookup in the cache and the parse of
  lines 562-566 are inside one.
\<close>

definition update ::
  "'f world \<Rightarrow> item \<Rightarrow> bool \<Rightarrow> 'f Enigma2 \<Rightarrow> (exn + unit) \<times> 'f Enigma2" where
  "update w it cache s =
     (case conf it ''enigma2_data_type'' of
        None \<Rightarrow> (Inr (), log_error ''No enigma2_data_type set in item!'' s)
      | Some data_type \<Rightarrow>
          (case conf it ''enigma2_page'' of
             None \<Rightarrow> (Inl KeyError, s)
           | Some page \<Rightarrow>
               (case map_of url_suffix_map page of
                  None \<Rightarrow> (Inl KeyError, s)
                | Some suffix \<Rightarrow>
                    (case cached_get_request w page (build_url (enigma2_device s) suffix '''') cache s of
                       (Inl e, s1) \<Rightarrow> (Inl e, s1)
                     | (Inr u, s1) \<Rightarrow>
                         (case response_cache s1 page of
                            None \<Rightarrow> (Inr (), log_error ''Exception when parsing response'' s1)
                          | Some Malformed \<Rightarrow>
                              (Inr (), log_error ''Exception when parsing response'' s1)
                          | Some (Markup xml) \<Rightarrow> write_element w it data_type xml s1)))))"

text \<open>
  A lookup \<^verbatim>\<open>self._url_suffix_map['...']\<close> with a literal key of the table (every
  literal key used below is in it, so no \<^verbatim>\<open>KeyError\<close> arises there).
\<close>

definition url_suffix :: "string \<Rightarrow> string" where
  "url_suffix key = the (map_of url_suffix_map key)"

text \<open>\<^verbatim>\<open>x.firstChild.data\<close>: fails on an element without children or with an element first.\<close>

definition first_child_data :: "node \<Rightarrow> exn + string" where
  "first_child_data x = (case firstChild x of None \<Rightarrow> Inl AttributeError | Some c \<Rightarrow> data c)"

section \<open>The current event\<close>

definition or_dash :: "string option \<Rightarrow> string" where
  "or_dash v = (case v of None \<Rightarrow> ''-'' | Some d \<Rightarrow> d)"

text \<open>
  \<^verbatim>\<open>get_current_epgservice_for_service_reference\<close> (lines 503-545): one request to the
  EPG endpoint. The result is \<open>None\<close> (the bare \<^verbatim>\<open>return\<close>) after a transport or
  parse error, otherwise the dictionary of the first event, empty when there is none.
\<close>

definition get_current_epgservice_for_service_reference ::
  "'f world \<Rightarrow> string \<Rightarrow> 'f Enigma2 \<Rightarrow> (exn + (string \<rightharpoonup> string) option) \<times> 'f Enigma2" where
  "get_current_epgservice_for_service_reference w service_reference s =
     (case session_get w None
             (build_url (enigma2_device s) (url_suffix ''epgservice'') (''sRef='' @ service_reference)) s of
        (Failure, s1) \<Rightarrow> (Inr None, log_error ''Exception when sending GET request'' s1)
      | (Content Malformed, s1) \<Rightarrow> (Inr None, log_error ''Exception when parsing response'' s1)
      | (Content (Markup xml), s1) \<Rightarrow>
          (case getElementsByTagName xml ''e2event'' of
             [] \<Rightarrow> (Inr (Some Map.empty), s1)
           | ev # evs \<Rightarrow>
               (case get_value_from_xml_node ev ''e2eventdescription'' of
                  Inl e \<Rightarrow> (Inl e, s1)
                | Inr d \<Rightarrow>
                    (case get_value_from_xml_node ev ''e2eventdescriptionextended'' of
                       Inl e \<Rightarrow> (Inl e, s1)
                     | Inr dx \<Rightarrow>
                         (case get_value_from_xml_node ev ''e2eventtitle'' of
                            Inl e \<Rightarrow> (Inl e, s1)
                          | Inr t \<Rightarrow>
                              (Inr (Some [''e2eventdescription'' \<mapsto> or_dash d,
                                          ''e2eventdescriptionextended'' \<mapsto> or_dash dx,
                                          ''e2eventtitle'' \<mapsto> or_dash t]), s1))))))"

text \<open>The event record of lines 486-489, for a box that shows no service.\<close>

definition no_event :: "string \<rightharpoonup> string" where
  "no_event = [''e2eventtitle'' \<mapsto> ''-'', ''e2eventdescription'' \<mapsto> ''-'',
               ''e2eventdescriptionextended'' \<mapsto> ''-'']"

text \<open>Lines 483-489 of \<^verbatim>\<open>_update_current_event\<close>: the event of a service reference.\<close>

definition current_epgservice ::
  "'f world \<Rightarrow> string \<Rightarrow> 'f Enigma2 \<Rightarrow> (exn + (string \<rightharpoonup> string) option) \<times> 'f Enigma2" where
  "current_epgservice w e2servicereference s =
     (if e2servicereference \<noteq> ''N/A'' \<and> \<not> py_in ''1:0:0:0:0:0:0:0:0:0'' e2servicereference
      then get_current_epgservice_for_service_reference w e2servicereference s
      else (Inr (Some no_event), s))"

text \<open>
  \<^verbatim>\<open>item(current_epgservice[key])\<close>: the subscript fails on \<^verbatim>\<open>None\<close> and on a
  dictionary without the key.
\<close>

definition write_event_field ::
  "item \<Rightarrow> (string \<rightharpoonup> string) option \<Rightarrow> string \<Rightarrow> 'f Enigma2 \<Rightarrow> (exn + unit) \<times> 'f Enigma2" where
  "write_event_field it epg key s =
     (case epg of
        None \<Rightarrow> (Inl TypeError, s)
      | Some d \<Rightarrow>
          (case d key of None \<Rightarrow> (Inl KeyError, s) | Some v \<Rightarrow> (Inr (), item_set it (PStr v) s)))"

text \<open>Lines 483-501: the event is fetched, then the item is written by its data type.\<close>

definition write_current_event ::
  "'f world \<Rightarrow> item \<Rightarrow> string \<Rightarrow> node \<Rightarrow> string \<Rightarrow> 'f Enigma2 \<Rightarrow> (exn + unit) \<times> 'f Enigma2" where
  "write_current_event w it data_type xml e2servicereference s =
     (case current_epgservice w e2servicereference s of
        (Inl e, s1) \<Rightarrow> (Inl e, s1)
      | (Inr epg, s1) \<Rightarrow>
          (case (if data_type = ''e2servicename'' then
                   (case get_value_from_xml_node xml ''e2servicename'' of
                      Inl e \<Rightarrow> (Inl e, s1)
                    | Inr v \<Rightarrow>
                        (Inr (), item_set it
                           (PStr (if v = None \<or> v = Some ''N/A'' then ''-'' else or_dash v)) s1))
                 else (Inr (), s1)) of
             (Inl e, s2) \<Rightarrow> (Inl e, s2)
           | (Inr u, s2) \<Rightarrow>
               (if data_type = ''current_eventtitle'' then
                  write_event_field it epg ''e2eventtitle'' s2
                else if data_type = ''current_eventdescription'' then
                  write_event_field it epg ''e2eventdescription'' s2
                else if data_type = ''current_eventdescriptionextended'' then
                  write_event_field it epg ''e2eventdescriptionextended'' s2
                else (Inr (), s2))))"

text \<open>
  Lines 476-481: the service reference is read from the response. When the element is
  missing, the error is logged and line 483 then reads a variable that was never bound.
\<close>

definition event_from_subservices ::
  "'f world \<Rightarrow> item \<Rightarrow> string \<Rightarrow> node \<Rightarrow> 'f Enigma2 \<Rightarrow> (exn + unit) \<times> 'f Enigma2" where
  "event_from_subservices w it data_type xml s =
     (case getElementsByTagName xml ''e2servicereference'' of
        [] \<Rightarrow> (Inl UnboundLocalError, log_error ''Attribute not available on the Enigma2Device'' s)
      | x # xs \<Rightarrow>
          (case first_child_data x of
             Inl e \<Rightarrow> (Inl e, s)
           | Inr e2servicereference \<Rightarrow> write_current_event w it data_type xml e2servicereference s))"

text \<open>\<^verbatim>\<open>_update_current_event\<close> (lines 456-501).\<close>

definition update_current_event ::
  "'f world \<Rightarrow> item \<Rightarrow> bool \<Rightarrow> 'f Enigma2 \<Rightarrow> (exn + unit) \<times> 'f Enigma2" where
  "update_current_event w it cache s =
     (case conf it ''enigma2_data_type'' of
        None \<Rightarrow> (Inr (), log_error ''No enigma2_data_type set in item!'' s)
      | Some data_type \<Rightarrow>
          (case cached_get_request w ''subservices''
                  (build_url (enigma2_device s) (url_suffix ''subservices'') []) cache s of
             (Inl e, s1) \<Rightarrow> (Inl e, s1)
           | (Inr u, s1) \<Rightarrow>
               (case response_cache s1 ''subservices'' of
                  None \<Rightarrow> (Inr (), log_error ''Exception when parsing response'' s1)
                | Some Malformed \<Rightarrow> (Inr (), log_error ''Exception when parsing response'' s1)
                | Some (Markup xml) \<Rightarrow> event_from_subservices w it data_type xml s1)))"

text \<open>
  \<^verbatim>\<open>_update_event_items\<close> (lines 450-454): a pass over the fast registry. The call
  is recorded on entry.
\<close>

fun update_event_items_loop ::
  "'f world \<Rightarrow> bool \<Rightarrow> item list \<Rightarrow> 'f Enigma2 \<Rightarrow> (exn + unit) \<times> 'f Enigma2" where
  "update_event_items_loop w cache [] s = (Inr (), s)"
| "update_event_items_loop w cache (it # rest) s =
     (case conf it ''enigma2_data_type'' of
        None \<Rightarrow> (Inl KeyError, s)
      | Some data_type \<Rightarrow>
          (if data_type \<in> set [''current_eventtitle'', ''current_eventdescription'',
                                ''current_eventdescriptionextended'', ''e2servicename'']
           then (case update_current_event w it cache s of
                   (Inl e, s1) \<Rightarrow> (Inl e, s1)
                 | (Inr u, s1) \<Rightarrow> update_event_items_loop w cache rest s1)
           else update_event_items_loop w cache rest s))"

definition update_event_items ::
  "'f world \<Rightarrow> bool \<Rightarrow> 'f Enigma2 \<Rightarrow> (exn + unit) \<times> 'f Enigma2" where
  "update_event_items w cache s =
     update_event_items_loop w cache (items_fast (enigma2_device s))
       (s\<lparr>event_passes := event_passes s @ [cache]\<rparr>)"

text \<open>
  \<^verbatim>\<open>_update_volume\<close> (lines 431-448): the request is sent whatever \<open>cache\<close> is. A
  response without the element makes line 447 add \<^verbatim>\<open>None\<close> to a string.
\<close>

definition update_volume ::
  "'f world \<Rightarrow> item \<Rightarrow> bool \<Rightarrow> 'f Enigma2 \<Rightarrow> (exn + unit) \<times> 'f Enigma2" where
  "update_volume w it cache s =
     (case session_get w None (build_url (enigma2_device s) (url_suffix ''getcurrent'') []) s of
        (Failure, s1) \<Rightarrow> (Inr (), log_error ''Exception when sending GET request'' s1)
      | (Content Malformed, s1) \<Rightarrow> (Inr (), log_error ''Exception when sending GET request'' s1)
      | (Content (Markup xml), s1) \<Rightarrow>
          (case get_value_from_xml_node xml ''e2current'' of
             Inl e \<Rightarrow> (Inl e, s1)
           | Inr None \<Rightarrow> (Inl TypeError, s1)
           | Inr (Some volume) \<Rightarrow> (Inr (), item_set it (PStr volume) s1)))"

section \<open>The two cycles\<close>

text \<open>
  The loop of \<^verbatim>\<open>_update_loop\<close> (lines 221-224). The result tells whether the loop
  ran to its end (\<open>True\<close>) or left the method at \<^verbatim>\<open>return\<close> (\<open>False\<close>).
\<close>

fun update_loop_items ::
  "'f world \<Rightarrow> item list \<Rightarrow> 'f Enigma2 \<Rightarrow> (exn + bool) \<times> 'f Enigma2" where
  "update_loop_items w [] s = (Inr True, s)"
| "update_loop_items w (it # rest) s =
     (case alive s of
        None \<Rightarrow> (Inl AttributeError, s)
      | Some False \<Rightarrow> (Inr False, s)
      | Some True \<Rightarrow>
          (case update w it True s of
             (Inl e, s1) \<Rightarrow> (Inl e, s1)
           | (Inr u, s1) \<Rightarrow> update_loop_items w rest s1))"

text \<open>\<^verbatim>\<open>_update_loop\<close> (lines 216-227), the slow cycle.\<close>

definition update_loop :: "'f world \<Rightarrow> 'f Enigma2 \<Rightarrow> (exn + unit) \<times> 'f Enigma2" where
  "update_loop w s =
     (case update_loop_items w (items (enigma2_device s)) s of
        (Inl e, s1) \<Rightarrow> (Inl e, s1)
      | (Inr False, s1) \<Rightarrow> (Inr (), s1)
      | (Inr True, s1) \<Rightarrow> (Inr (), s1\<lparr>response_cache := Map.empty\<rparr>))"

text \<open>Lines 237-242: the resolution path of one binding of the fast registry.\<close>

definition update_fast_item ::
  "'f world \<Rightarrow> bool \<Rightarrow> item \<Rightarrow> 'f Enigma2 \<Rightarrow> (exn + unit) \<times> 'f Enigma2" where
  "update_fast_item w cache it s =
     (if conf it ''enigma2_page'' \<noteq> None then update w it True s
      else
        (case conf it ''enigma2_data_type'' of
           None \<Rightarrow> (Inl KeyError, s)
         | Some data_type \<Rightarrow>
             (if data_type \<in> set key_event_information then update_event_items w cache s
              else if data_type = ''current_volume'' then update_volume w it cache s
              else (Inr (), s))))"

fun update_loop_fast_items ::
  "'f world \<Rightarrow> bool \<Rightarrow> item list \<Rightarrow> 'f Enigma2 \<Rightarrow> (exn + bool) \<times> 'f Enigma2" where
  "update_loop_fast_items w cache [] s = (Inr True, s)"
| "update_loop_fast_items w cache (it # rest) s =
     (case alive s of
        None \<Rightarrow> (Inl AttributeError, s)
      | Some False \<Rightarrow> (Inr False, s)
      | Some True \<Rightarrow>
          (case update_fast_item w cache it s of
             (Inl e, s1) \<Rightarrow> (Inl e, s1)
           | (Inr u, s1) \<Rightarrow> update_loop_fast_items w cache rest s1))"

text \<open>\<^verbatim>\<open>_update_loop_fast\<close> (lines 229-245), the fast cycle.\<close>

definition update_loop_fast ::
  "'f world \<Rightarrow> bool \<Rightarrow> 'f Enigma2 \<Rightarrow> (exn + unit) \<times> 'f Enigma2" where
  "update_loop_fast w cache s =
     (case update_loop_fast_items w cache (items_fast (enigma2_device s)) s of
        (Inl e, s1) \<Rightarrow> (Inl e, s1)
      | (Inr False, s1) \<Rightarrow> (Inr (), s1)
      | (Inr True, s1) \<Rightarrow> (Inr (), s1\<lparr>response_cache := Map.empty\<rparr>))"

section \<open>Construction, registration and lifecycle\<close>

text \<open>
  \<^verbatim>\<open>Enigma2.__init__\<close> (lines 147-185): the device descriptor with two empty
  registries and an empty response cache; \<open>alive\<close> is not set. The value slots are
  those of the host.
\<close>

definition init ::
  "string \<Rightarrow> string \<Rightarrow> string \<Rightarrow> string \<Rightarrow> string \<Rightarrow> string \<Rightarrow> (nat \<rightharpoonup> 'f pyval) \<Rightarrow> 'f Enigma2" where
  "init usr pwd hst prt ssl_text device_id host_slots =
     \<lparr>enigma2_device =
        \<lparr>host = hst, port = prt, ssl = (ssl_text = ''True''), username = usr, password = pwd,
         device_identifier = device_id, items = [], items_fast = []\<rparr>,
      response_cache = Map.empty, alive = None, requests = [], slots = host_slots, errors = [],
      event_passes = []\<rparr>"

definition add_item :: "item \<Rightarrow> 'f Enigma2 \<Rightarrow> 'f Enigma2" where
  "add_item it s = s\<lparr>enigma2_device := (enigma2_device s)\<lparr>items := items (enigma2_device s) @ [it]\<rparr>\<rparr>"

definition add_fast_item :: "item \<Rightarrow> 'f Enigma2 \<Rightarrow> 'f Enigma2" where
  "add_fast_item it s =
     s\<lparr>enigma2_device := (enigma2_device s)\<lparr>items_fast := items_fast (enigma2_device s) @ [it]\<rparr>\<rparr>"

text \<open>
  \<^verbatim>\<open>parse_item\<close> (lines 247-271). The result tells whether the method returns
  \<^verbatim>\<open>self.execute_item\<close> for the item.
\<close>

definition parse_item :: "item \<Rightarrow> 'f Enigma2 \<Rightarrow> (exn + bool) \<times> 'f Enigma2" where
  "parse_item it s =
     (case conf it ''device_id'' of
        None \<Rightarrow> (Inr False, s)
      | Some v \<Rightarrow>
          (if v = device_identifier (enigma2_device s) then
             (case conf it ''enigma2_page'' of
                Some page \<Rightarrow>
                  (if page \<in> set [''about'', ''powerstate'', ''subservices'', ''deviceinfo''] then
                     (case conf it ''enigma2_data_type'' of
                        None \<Rightarrow> (Inl KeyError, s)
                      | Some data_type \<Rightarrow>
                          (if data_type \<in> set keys_fast_refresh then (Inr False, add_fast_item it s)
                           else (Inr False, add_item it s)))
                   else (Inr False, s))
              | None \<Rightarrow>
                  (case conf it ''enigma2_data_type'' of
                     Some data_type \<Rightarrow>
                       (if data_type \<in> set keys_fast_refresh then (Inr False, add_fast_item it s)
                        else (Inr False, add_item it s))
                   | None \<Rightarrow>
                       (if conf it ''enigma2_remote_command_id'' \<noteq> None \<or> conf it ''sref'' \<noteq> None
                        then (Inr True, s)
                        else (Inr False, s))))
           else (Inr False, s)))"

text \<open>\<^verbatim>\<open>run\<close> and \<^verbatim>\<open>stop\<close> (lines 187-199); the scheduler belongs to the host.\<close>

definition run :: "'f Enigma2 \<Rightarrow> 'f Enigma2" where
  "run s = s\<lparr>alive := Some True\<rparr>"

definition stop :: "'f Enigma2 \<Rightarrow> 'f Enigma2" where
  "stop s = s\<lparr>alive := Some False\<rparr>"

section \<open>Commands\<close>

text \<open>
  The acknowledgement check shared by \<^verbatim>\<open>remote_control_command\<close> (lines 305-311) and
  \<^verbatim>\<open>zap\<close> (lines 373-379): it only logs at debug level, but reading \<^verbatim>\<open>data\<close>
  can fail.
\<close>

definition check_ack :: "node \<Rightarrow> string \<Rightarrow> string \<Rightarrow> exn + unit" where
  "check_ack xml result_tag text_tag =
     (case getElementsByTagName xml text_tag of
        [] \<Rightarrow> Inr ()
      | t # ts \<Rightarrow>
          (case getElementsByTagName xml result_tag of
             [] \<Rightarrow> Inr ()
           | r # rs \<Rightarrow>
               (case firstChild t of
                  None \<Rightarrow> Inr ()
                | Some tc \<Rightarrow>
                    (case firstChild r of
                       None \<Rightarrow> Inr ()
                     | Some rc \<Rightarrow>
                         (case data rc of
                            Inl e \<Rightarrow> Inl e
                          | Inr d \<Rightarrow>
                              (if d = ''True'' then
                                 (case data tc of Inl e \<Rightarrow> Inl e | Inr m \<Rightarrow> Inr ())
                               else Inr ()))))))"

text \<open>
  \<^verbatim>\<open>remote_control_command\<close> (lines 294-311): the transport error is caught, the
  parse of the acknowledgement is outside the \<^verbatim>\<open>try\<close>.
\<close>

definition remote_control_command ::
  "'f world \<Rightarrow> string \<Rightarrow> 'f Enigma2 \<Rightarrow> (exn + unit) \<times> 'f Enigma2" where
  "remote_control_command w command_id s =
     (case session_get w None
             (build_url (enigma2_device s) (url_suffix ''remotecontrol'') (''command='' @ command_id)) s of
        (Failure, s1) \<Rightarrow> (Inr (), log_error ''Exception when sending GET request'' s1)
      | (Content Malformed, s1) \<Rightarrow> (Inl ExpatError, s1)
      | (Content (Markup xml), s1) \<Rightarrow> (check_ack xml ''e2result'' ''e2resulttext'', s1))"

text \<open>\<^verbatim>\<open>zap\<close> (lines 356-379), called with the default empty title.\<close>

definition zap :: "'f world \<Rightarrow> string \<Rightarrow> 'f Enigma2 \<Rightarrow> (exn + unit) \<times> 'f Enigma2" where
  "zap w e2servicereference s =
     (case session_get w None
             (build_url (enigma2_device s) (url_suffix ''zap'')
                (''sRef='' @ e2servicereference @ ''&title='')) s of
        (Failure, s1) \<Rightarrow> (Inr (), log_error ''Exception when sending GET request'' s1)
      | (Content Malformed, s1) \<Rightarrow> (Inl ExpatError, s1)
      | (Content (Markup xml), s1) \<Rightarrow> (check_ack xml ''e2state'' ''e2statetext'', s1))"

text \<open>Lines 285-286 and 291-292: the forced event resolution, then the forced fast cycle.\<close>

definition resync_event_and_fast :: "'f world \<Rightarrow> 'f Enigma2 \<Rightarrow> (exn + unit) \<times> 'f Enigma2" where
  "resync_event_and_fast w s =
     (case update_event_items w False s of
        (Inl e, s1) \<Rightarrow> (Inl e, s1)
      | (Inr u, s1) \<Rightarrow> update_loop_fast w False s1)"

text \<open>\<^verbatim>\<open>execute_item\<close> (lines 273-292); \<open>caller\<close> is \<open>None\<close> by default.\<close>

definition execute_item ::
  "'f world \<Rightarrow> item \<Rightarrow> string option \<Rightarrow> 'f Enigma2 \<Rightarrow> (exn + unit) \<times> 'f Enigma2" where
  "execute_item w it caller s =
     (if caller \<noteq> Some ''Enigma2'' then
        (case conf it ''enigma2_remote_command_id'' of
           Some command_id \<Rightarrow>
             (case remote_control_command w command_id s of
                (Inl e, s1) \<Rightarrow> (Inl e, s1)
              | (Inr u, s1) \<Rightarrow>
                  (if command_id \<in> set [''105'', ''106'', ''116''] then resync_event_and_fast w s1
                   else if command_id \<in> set [''114'', ''115''] then update_loop_fast w False s1
                   else (Inr (), s1)))
         | None \<Rightarrow>
             (case conf it ''sref'' of
                Some sref \<Rightarrow>
                  (case zap w sref s of
                     (Inl e, s1) \<Rightarrow> (Inl e, s1)
                   | (Inr u, s1) \<Rightarrow> resync_event_and_fast w s1)
              | None \<Rightarrow> (Inr (), s)))
      else (Inr (), s))"

section \<open>Audio tracks\<close>

text \<open>One entry of the result of \<^verbatim>\<open>get_audio_tracks\<close>: a dictionary with up to four keys.\<close>

record audio_track =
  e2audiotrackdescription :: "string option"
  e2audiotrackid :: "int option"
  e2audiotrackpid :: "int option"
  e2audiotrackactive :: "bool option"

text \<open>Lines 332-335: the text of the first element with the tag, when there is one.\<close>

definition track_text :: "node \<Rightarrow> string \<Rightarrow> exn + string option" where
  "track_text n tag =
     (case getElementsByTagName n tag of
        [] \<Rightarrow> Inr None
      | x # xs \<Rightarrow> (case first_child_data x of Inl e \<Rightarrow> Inl e | Inr d \<Rightarrow> Inr (Some d)))"

text \<open>Lines 337-343: the same, passed through \<^verbatim>\<open>int\<close>.\<close>

definition track_int :: "'f world \<Rightarrow> node \<Rightarrow> string \<Rightarrow> exn + int option" where
  "track_int w n tag =
     (case track_text n tag of
        Inl e \<Rightarrow> Inl e
      | Inr None \<Rightarrow> Inr None
      | Inr (Some d) \<Rightarrow> (case py_int w d of None \<Rightarrow> Inl ValueError | Some i \<Rightarrow> Inr (Some i)))"

text \<open>Lines 331-350: the entry of one \<^verbatim>\<open>e2audiotrack\<close> element.\<close>

definition audio_track_entry :: "'f world \<Rightarrow> node \<Rightarrow> exn + audio_track" where
  "audio_track_entry w n =
     (case track_text n ''e2audiotrackdescription'' of
        Inl e \<Rightarrow> Inl e
      | Inr descr \<Rightarrow>
          (case track_int w n ''e2audiotrackid'' of
             Inl e \<Rightarrow> Inl e
           | Inr tid \<Rightarrow>
               (case track_int w n ''e2audiotrackpid'' of
                  Inl e \<Rightarrow> Inl e
                | Inr pid \<Rightarrow>
                    (case track_text n ''e2audiotrackactive'' of
                       Inl e \<Rightarrow> Inl e
                     | Inr act \<Rightarrow>
                         Inr \<lparr>e2audiotrackdescription = descr, e2audiotrackid = tid,
                              e2audiotrackpid = pid,
                              e2audiotrackactive = map_option (\<lambda>d. py_in d ''True'') act\<rparr>))))"

fun audio_track_entries :: "'f world \<Rightarrow> node list \<Rightarrow> exn + audio_track list" where
  "audio_track_entries w [] = Inr []"
| "audio_track_entries w (n # ns) =
     (case audio_track_entry w n of
        Inl e \<Rightarrow> Inl e
      | Inr t \<Rightarrow>
          (case audio_track_entries w ns of Inl e \<Rightarrow> Inl e | Inr ts \<Rightarrow> Inr (t # ts)))"

text \<open>
  \<^verbatim>\<open>get_audio_tracks\<close> (lines 313-354): \<open>None\<close> after a transport or parse error,
  otherwise the list of entries.
\<close>

definition get_audio_tracks ::
  "'f world \<Rightarrow> 'f Enigma2 \<Rightarrow> (exn + audio_track list option) \<times> 'f Enigma2" where
  "get_audio_tracks w s =
     (case session_get w None (build_url (enigma2_device s) (url_suffix ''getaudiotracks'') []) s of
        (Failure, s1) \<Rightarrow> (Inr None, log_error ''Exception when sending GET request'' s1)
      | (Content Malformed, s1) \<Rightarrow> (Inr None, log_error ''Exception when sending GET request'' s1)
      | (Content (Markup xml), s1) \<Rightarrow>
          (case audio_track_entries w (getElementsByTagName xml ''e2audiotrack'') of
             Inl e \<Rightarrow> (Inl e, s1)
           | Inr r \<Rightarrow> (Inr (Some r), s1)))"

section \<open>Notions used in the proofs\<close>

text \<open>
  A step is quiet when it sends no request and leaves the cache, the lifecycle flag and
  the device descriptor alone: it only writes slots or logs.
\<close>

definition quiet :: "'f Enigma2 \<Rightarrow> 'f Enigma2 \<Rightarrow> bool" where
  "quiet s s' \<longleftrightarrow> requests s' = requests s \<and> response_cache s' = response_cache s \<and>
     alive s' = alive s \<and> enigma2_device s' = enigma2_device s \<and> event_passes s' = event_passes s"

text \<open>The requests of a list that were made through the cache for the key \<open>k\<close>.\<close>

definition fetches :: "string \<Rightarrow> request list \<Rightarrow> request list" where
  "fetches k ls = filter (\<lambda>r. req_key r = Some k) ls"

text \<open>
  What a step of a pass with caching enabled does about the key \<open>k\<close>: it only adds
  requests; when the cache held the key before, it still does and no request was made
  for the key; otherwise every request made for the key failed, but possibly the last
  one when the cache holds the key afterwards.
\<close>

definition dedup_step :: "string \<Rightarrow> 'f Enigma2 \<Rightarrow> 'f Enigma2 \<Rightarrow> bool" where
  "dedup_step k s s' \<longleftrightarrow>
     (\<exists>ls. requests s' = requests s @ ls \<and>
        (if response_cache s k \<noteq> None then response_cache s' k \<noteq> None \<and> fetches k ls = []
         else if response_cache s' k \<noteq> None then (\<forall>r\<in>set (butlast (fetches k ls)). \<not> req_ok r)
         else (\<forall>r\<in>set (fetches k ls). \<not> req_ok r)))"

text \<open>
  The bindings for which the fast cycle calls \<^verbatim>\<open>_update_event_items\<close> (lines
  237-240): those without a page whose data type is one of the three event fields.
\<close>

definition calls_event_resolution :: "item \<Rightarrow> bool" where
  "calls_event_resolution it \<longleftrightarrow>
     conf it ''enigma2_page'' = None \<and>
     (case conf it ''enigma2_data_type'' of
        None \<Rightarrow> False
      | Some data_type \<Rightarrow> data_type \<in> set key_event_information)"

text \<open>
  The number of calls of \<^verbatim>\<open>_update_event_items\<close> that a fast cycle makes when it
  goes through its registry: none on an engine that is not running.
\<close>

definition cycle_event_passes :: "'f Enigma2 \<Rightarrow> nat" where
  "cycle_event_passes s =
     (if alive s = Some True
      then length (filter calls_event_resolution (items_fast (enigma2_device s)))
      else 0)"

section \<open>A box and some bindings to run the engine on\<close>

text \<open>
  The concrete surroundings used by the examples below: a box at \<^verbatim>\<open>http://box:80\<close>
  that shows the service with reference \<open>r\<close>, and parsers that know the texts
  \<^verbatim>\<open>42\<close> and \<^verbatim>\<open>3.5\<close> (a float is written as mantissa and binary exponent).
\<close>

definition about_doc :: node where
  "about_doc = Element ''#document'' [Element ''e2abouts'' [Element ''e2about''
     [Element ''e2model'' [Chars ''solo4k''],
      Element ''e2enigmaversion'' [Chars ''N/A''],
      Element ''e2lanmac'' [],
      Element ''e2fpversion'' [Chars ''42''],
      Element ''e2webifversion'' [Chars ''3.5''],
      Element ''e2imageversion'' [Chars ''abc'']]]]"

definition subservices_doc :: "string \<Rightarrow> node" where
  "subservices_doc r = Element ''#document'' [Element ''e2servicelist'' [Element ''e2service''
     [Element ''e2servicereference'' [Chars r], Element ''e2servicename'' [Chars ''ARD'']]]]"

definition epg_doc :: node where
  "epg_doc = Element ''#document'' [Element ''e2eventlist'' [Element ''e2event''
     [Element ''e2eventtitle'' [Chars ''News''],
      Element ''e2eventdescription'' [Chars ''Daily''],
      Element ''e2eventdescriptionextended'' []]]]"

definition powerstate_doc :: node where
  "powerstate_doc = Element ''#document'' [Element ''e2powerstate''
     [Element ''e2instandby'' [Chars ''true'']]]"

definition ack_doc :: node where
  "ack_doc = Element ''#document'' [Element ''e2remotecontrol''
     [Element ''e2result'' [Chars ''True''], Element ''e2resulttext'' [Chars ''done'']]]"

definition audio_doc :: node where
  "audio_doc = Element ''#document'' [Element ''e2audiotracklist''
     [Element ''e2audiotrack'' [Element ''e2audiotrackactive'' [Chars ''True'']],
      Element ''e2audiotrack'' [Element ''e2audiotrackactive'' [Chars ''False'']],
      Element ''e2audiotrack'' [Element ''e2audiotrackactive'' [Chars ''rue'']]]]"

definition tv_box :: "string \<Rightarrow> nat \<Rightarrow> string \<Rightarrow> reply" where
  "tv_box r n u =
     (if u = ''http://box:80/web/about?'' then Content (Markup about_doc)
      else if u = ''http://box:80/web/subservices?'' then Content (Markup (subservices_doc r))
      else if u = ''http://box:80/web/epgservice?sRef='' @ r then Content (Markup epg_doc)
      else if u = ''http://box:80/web/powerstate?'' then Content (Markup powerstate_doc)
      else if u = ''http://box:80/web/remotecontrol?command=105'' then Content (Markup ack_doc)
      else if u = ''http://box:80/web/remotecontrol?command=114'' then Content (Markup ack_doc)
      else if u = ''http://box:80/web/getaudiotracks?'' then Content (Markup audio_doc)
      else Failure)"

text \<open>A box that answers its first \<open>m\<close> requests and is unreachable afterwards.\<close>

definition reachable_for :: "nat \<Rightarrow> (nat \<Rightarrow> string \<Rightarrow> reply) \<Rightarrow> nat \<Rightarrow> string \<Rightarrow> reply" where
  "reachable_for m b n u = (if n < m then b n u else Failure)"

text \<open>A box whose list of services names no service reference.\<close>

definition bare_box :: "nat \<Rightarrow> string \<Rightarrow> reply" where
  "bare_box n u =
     (if u = ''http://box:80/web/subservices?'' then
        Content (Markup (Element ''#document'' [Element ''e2servicelist'' []]))
      else tv_box ''N/A'' n u)"

definition world_of :: "(nat \<Rightarrow> string \<Rightarrow> reply) \<Rightarrow> (int \<times> int) world" where
  "world_of b =
     \<lparr>box = b,
      py_int = (\<lambda>t. if t = ''42'' then Some 42 else None),
      py_float = (\<lambda>t. if t = ''42'' then Some (42, 0) else if t = ''3.5'' then Some (7, - 1) else None)\<rparr>"

definition binding :: "nat \<Rightarrow> (string \<times> string) list \<Rightarrow> string \<Rightarrow> item" where
  "binding n kvs ty =
     \<lparr>item_id = n, conf = map_of ((''device_id'', ''enigma2'') # kvs), item_type = ty\<rparr>"

definition paged :: "nat \<Rightarrow> string \<Rightarrow> string \<Rightarrow> string \<Rightarrow> item" where
  "paged n page data_type ty =
     binding n [(''enigma2_page'', page), (''enigma2_data_type'', data_type)] ty"

definition typed :: "nat \<Rightarrow> string \<Rightarrow> item" where
  "typed n data_type = binding n [(''enigma2_data_type'', data_type)] ''str''"

definition command :: "nat \<Rightarrow> string \<Rightarrow> item" where
  "command n command_id = binding n [(''enigma2_remote_command_id'', command_id)] ''num''"

text \<open>
  The engine after construction, the registration of the bindings (\<^verbatim>\<open>parse_item\<close>
  for each) and \<^verbatim>\<open>run\<close>. Slot 9 holds an earlier value.
\<close>

definition engine_with :: "item list \<Rightarrow> (int \<times> int) Enigma2" where
  "engine_with its =
     run (fold (\<lambda>it s. snd (parse_item it s)) its
            (init [] [] ''box'' ''80'' ''False'' ''enigma2'' [9 \<mapsto> PStr ''old'']))"

text \<open>A box that is unreachable for its first \<open>m\<close> requests and answers afterwards.\<close>

definition unreachable_for :: "nat \<Rightarrow> (nat \<Rightarrow> string \<Rightarrow> reply) \<Rightarrow> nat \<Rightarrow> string \<Rightarrow> reply" where
  "unreachable_for m b n u = (if n < m then Failure else b n u)"

section \<open>Frame properties\<close>

lemma quiet_fields:
  "quiet s s' \<Longrightarrow> requests s' = requests s"
  "quiet s s' \<Longrightarrow> response_cache s' = response_cache s"
  "quiet s s' \<Longrightarrow> alive s' = alive s"
  "quiet s s' \<Longrightarrow> enigma2_device s' = enigma2_device s"
  "quiet s s' \<Longrightarrow> event_passes s' = event_passes s"
  by (simp_all add: quiet_def)

lemma quiet_refl [simp]: "quiet s s"
  by (simp add: quiet_def)

lemma quiet_item_set [simp]: "quiet s (item_set it v s)"
  by (simp add: quiet_def item_set_def)

lemma quiet_log_error [simp]: "quiet s (log_error m s)"
  by (simp add: quiet_def log_error_def)

lemma quiet_write_bool [simp]: "quiet s (snd (write_bool it x s))"
  by (simp add: write_bool_def split: option.split sum.split)

lemma quiet_write_num [simp]: "quiet s (snd (write_num w it x s))"
  by (simp add: write_num_def split: option.split sum.split)

lemma quiet_write_text [simp]: "quiet s (snd (write_text it x s))"
  by (simp add: write_text_def split: option.split sum.split)

lemma quiet_write_element [simp]: "quiet s (snd (write_element w it dt xml s))"
  by (simp add: write_element_def split: list.split)

lemma quiet_write_event_field [simp]: "quiet s (snd (write_event_field it epg key s))"
  by (simp add: write_event_field_def split: option.split)

lemmas item_set_frame [simp] = quiet_fields [OF quiet_item_set]
lemmas log_error_frame [simp] = quiet_fields [OF quiet_log_error]
lemmas write_element_frame [simp] = quiet_fields [OF quiet_write_element]
lemmas write_event_field_frame [simp] = quiet_fields [OF quiet_write_event_field]

lemma log_error_slots [simp]: "slots (log_error m s) = slots s"
  by (simp add: log_error_def)

lemma item_set_slots [simp]: "slots (item_set it v s) = (slots s)(item_id it \<mapsto> v)"
  by (simp add: item_set_def)

lemma session_get_frame [simp]:
  "fst (session_get w k u s) = box w (length (requests s)) u"
  "requests (snd (session_get w k u s)) =
     requests s @ [\<lparr>req_key = k, req_url = u, req_ok = (box w (length (requests s)) u \<noteq> Failure)\<rparr>]"
  "response_cache (snd (session_get w k u s)) = response_cache s"
  "slots (snd (session_get w k u s)) = slots s"
  "alive (snd (session_get w k u s)) = alive s"
  "enigma2_device (snd (session_get w k u s)) = enigma2_device s"
  "event_passes (snd (session_get w k u s)) = event_passes s"
  by (simp_all add: session_get_def Let_def)

lemma cached_get_request_frame [simp]:
  "fst (cached_get_request w k u c s) = Inr ()"
  "slots (snd (cached_get_request w k u c s)) = slots s"
  "alive (snd (cached_get_request w k u c s)) = alive s"
  "enigma2_device (snd (cached_get_request w k u c s)) = enigma2_device s"
  "event_passes (snd (cached_get_request w k u c s)) = event_passes s"
  by (simp_all add: cached_get_request_def case_prod_beta split: reply.split)

lemma update_frame [simp]:
  "alive (snd (update w it c s)) = alive s"
  "enigma2_device (snd (update w it c s)) = enigma2_device s"
  "event_passes (snd (update w it c s)) = event_passes s"
  by (simp_all add: update_def case_prod_beta split: option.split sum.split body.split)

lemma epgservice_frame [simp]:
  "requests (snd (get_current_epgservice_for_service_reference w r s)) =
     requests s @ [\<lparr>req_key = None,
        req_url = build_url (enigma2_device s) (url_suffix ''epgservice'') (''sRef='' @ r),
        req_ok = (box w (length (requests s))
           (build_url (enigma2_device s) (url_suffix ''epgservice'') (''sRef='' @ r)) \<noteq> Failure)\<rparr>]"
  "response_cache (snd (get_current_epgservice_for_service_reference w r s)) = response_cache s"
  "alive (snd (get_current_epgservice_for_service_reference w r s)) = alive s"
  "enigma2_device (snd (get_current_epgservice_for_service_reference w r s)) = enigma2_device s"
  "event_passes (snd (get_current_epgservice_for_service_reference w r s)) = event_passes s"
  by (simp_all add: get_current_epgservice_for_service_reference_def case_prod_beta
      split: reply.split body.split list.split sum.split)

lemma current_epgservice_frame [simp]:
  "response_cache (snd (current_epgservice w r s)) = response_cache s"
  "alive (snd (current_epgservice w r s)) = alive s"
  "enigma2_device (snd (current_epgservice w r s)) = enigma2_device s"
  "event_passes (snd (current_epgservice w r s)) = event_passes s"
  by (simp_all add: current_epgservice_def)

lemma write_current_event_frame [simp]:
  "requests (snd (write_current_event w it dt xml r s)) = requests (snd (current_epgservice w r s))"
  "response_cache (snd (write_current_event w it dt xml r s)) = response_cache s"
  "alive (snd (write_current_event w it dt xml r s)) = alive s"
  "enigma2_device (snd (write_current_event w it dt xml r s)) = enigma2_device s"
  "event_passes (snd (write_current_event w it dt xml r s)) = event_passes s"
  by (simp_all add: write_current_event_def case_prod_beta split: sum.split)

lemma event_from_subservices_frame [simp]:
  "response_cache (snd (event_from_subservices w it dt xml s)) = response_cache s"
  "alive (snd (event_from_subservices w it dt xml s)) = alive s"
  "enigma2_device (snd (event_from_subservices w it dt xml s)) = enigma2_device s"
  "event_passes (snd (event_from_subservices w it dt xml s)) = event_passes s"
  by (simp_all add: event_from_subservices_def split: list.split sum.split)

lemma update_current_event_frame [simp]:
  "alive (snd (update_current_event w it c s)) = alive s"
  "enigma2_device (snd (update_current_event w it c s)) = enigma2_device s"
  "event_passes (snd (update_current_event w it c s)) = event_passes s"
  by (simp_all add: update_current_event_def case_prod_beta split: option.split sum.split body.split)

lemma update_event_items_loop_frame [simp]:
  "alive (snd (update_event_items_loop w c its s)) = alive s"
  "enigma2_device (snd (update_event_items_loop w c its s)) = enigma2_device s"
  "event_passes (snd (update_event_items_loop w c its s)) = event_passes s"
  by (induction its arbitrary: s; simp add: case_prod_beta split: option.split sum.split)+

lemma update_event_items_frame [simp]:
  "alive (snd (update_event_items w c s)) = alive s"
  "enigma2_device (snd (update_event_items w c s)) = enigma2_device s"
  "event_passes (snd (update_event_items w c s)) = event_passes s @ [c]"
  by (simp_all add: update_event_items_def)

lemma update_volume_frame [simp]:
  "response_cache (snd (update_volume w it c s)) = response_cache s"
  "alive (snd (update_volume w it c s)) = alive s"
  "enigma2_device (snd (update_volume w it c s)) = enigma2_device s"
  "event_passes (snd (update_volume w it c s)) = event_passes s"
  by (simp_all add: update_volume_def case_prod_beta split: reply.split body.split sum.split option.split)

lemma update_fast_item_frame [simp]:
  "alive (snd (update_fast_item w c it s)) = alive s"
  "enigma2_device (snd (update_fast_item w c it s)) = enigma2_device s"
  by (simp_all add: update_fast_item_def split: option.split)

lemma remote_control_command_frame [simp]:
  "alive (snd (remote_control_command w command_id s)) = alive s"
  "enigma2_device (snd (remote_control_command w command_id s)) = enigma2_device s"
  "event_passes (snd (remote_control_command w command_id s)) = event_passes s"
  by (simp_all add: remote_control_command_def case_prod_beta split: reply.split body.split)

lemmas demo_defs = about_doc_def subservices_doc_def epg_doc_def powerstate_doc_def ack_doc_def
  audio_doc_def tv_box_def reachable_for_def bare_box_def world_of_def binding_def paged_def
  typed_def command_def engine_with_def init_def parse_item_def add_item_def add_fast_item_def
  run_def stop_def keys_fast_refresh_def key_event_information_def url_suffix_map_def
  url_suffix_def build_url_def getElementsByTagName_def

lemmas step_defs = update_def cached_get_request_def session_get_def log_error_def item_set_def
  write_element_def write_bool_def write_num_def write_text_def

lemmas run_defs = update_loop_def update_loop_fast_def update_fast_item_def update_def
  update_event_items_def update_current_event_def update_volume_def cached_get_request_def
  session_get_def log_error_def item_set_def event_from_subservices_def first_child_data_def
  write_current_event_def current_epgservice_def get_current_epgservice_for_service_reference_def
  write_event_field_def get_value_from_xml_node_def or_dash_def write_element_def write_bool_def
  write_num_def write_text_def remote_control_command_def check_ack_def execute_item_def
  resync_event_and_fast_def no_event_def

section \<open>Claims about the cached request and the coercions\<close>

lemma update_reaches_write:
  assumes "conf it ''enigma2_data_type'' = Some dt" and "conf it ''enigma2_page'' = Some p"
    and "map_of url_suffix_map p = Some suf"
    and "response_cache (snd (cached_get_request w p (build_url (enigma2_device s) suf []) c s)) p
           = Some (Markup xml)"
  shows "update w it c s =
           write_element w it dt xml (snd (cached_get_request w p (build_url (enigma2_device s) suf []) c s))"
  using assms by (simp add: update_def case_prod_beta)

lemma event_from_subservices_requests:
  "take (length (requests s)) (requests (snd (event_from_subservices w it dt xml s))) = requests s"
  by (simp add: event_from_subservices_def current_epgservice_def split: list.split sum.split)

text \<open>
  C4. A request made with \<open>cache = False\<close> is always sent, whatever the cache holds
  for the key: the list of requests grows by exactly this one, and when the box answers,
  the answer replaces what the cache held. So \<^verbatim>\<open>_update\<close> and
  \<^verbatim>\<open>_update_current_event\<close>, called with \<open>cache = False\<close> for a binding with the
  configuration they need, send the request of their endpoint first.
\<close>

theorem forced_request_always_fetches:
  "requests (snd (cached_get_request w k u False s)) =
     requests s @ [\<lparr>req_key = Some k, req_url = u,
                     req_ok = (box w (length (requests s)) u \<noteq> Failure)\<rparr>]
   \<and> response_cache (snd (cached_get_request w k u False s)) k =
       (case box w (length (requests s)) u of Failure \<Rightarrow> response_cache s k | Content b \<Rightarrow> Some b)
   \<and> (conf it ''enigma2_data_type'' = Some dt \<and> conf it ''enigma2_page'' = Some k
        \<and> map_of url_suffix_map k = Some suf \<and> u = build_url (enigma2_device s) suf [] \<longrightarrow>
      requests (snd (update w it False s)) =
        requests s @ [\<lparr>req_key = Some k, req_url = u,
                        req_ok = (box w (length (requests s)) u \<noteq> Failure)\<rparr>])
   \<and> (conf it ''enigma2_data_type'' = Some dt \<and> k = ''subservices''
        \<and> u = build_url (enigma2_device s) ''/web/subservices'' [] \<longrightarrow>
      take (Suc (length (requests s))) (requests (snd (update_current_event w it False s))) =
        requests s @ [\<lparr>req_key = Some k, req_url = u,
                        req_ok = (box w (length (requests s)) u \<noteq> Failure)\<rparr>])"
proof -
  let ?r = "\<lparr>req_key = Some k, req_url = u, req_ok = (box w (length (requests s)) u \<noteq> Failure)\<rparr>"
  have sent: "requests (snd (cached_get_request w k u False s)) = requests s @ [?r]"
    by (simp add: cached_get_request_def case_prod_beta split: reply.split)
  have stored: "response_cache (snd (cached_get_request w k u False s)) k =
      (case box w (length (requests s)) u of Failure \<Rightarrow> response_cache s k | Content b \<Rightarrow> Some b)"
    by (simp add: cached_get_request_def case_prod_beta split: reply.split)
  have paged: "requests (snd (update w it False s)) = requests s @ [?r]"
    if dt: "conf it ''enigma2_data_type'' = Some dt" and page: "conf it ''enigma2_page'' = Some k"
      and suf: "map_of url_suffix_map k = Some suf" and u: "u = build_url (enigma2_device s) suf []"
  proof -
    let ?s1 = "snd (cached_get_request w k (build_url (enigma2_device s) suf []) False s)"
    have "update w it False s =
        (case response_cache ?s1 k of
           None \<Rightarrow> (Inr (), log_error ''Exception when parsing response'' ?s1)
         | Some Malformed \<Rightarrow> (Inr (), log_error ''Exception when parsing response'' ?s1)
         | Some (Markup xml) \<Rightarrow> write_element w it dt xml ?s1)"
      by (simp add: update_def dt page suf case_prod_beta)
    then have "requests (snd (update w it False s)) = requests ?s1"
      by (simp split: option.split body.split)
    then show ?thesis
      unfolding u by (simp only: sent [unfolded u])
  qed
  have event: "take (Suc (length (requests s))) (requests (snd (update_current_event w it False s)))
      = requests s @ [?r]"
    if dt: "conf it ''enigma2_data_type'' = Some dt" and k: "k = ''subservices''"
      and u: "u = build_url (enigma2_device s) ''/web/subservices'' []"
  proof -
    let ?s1 = "snd (cached_get_request w ''subservices''
        (build_url (enigma2_device s) ''/web/subservices'' []) False s)"
    note sent' = sent [unfolded k u]
    have suffix: "url_suffix ''subservices'' = ''/web/subservices''"
      by (simp add: url_suffix_def url_suffix_map_def)
    have "update_current_event w it False s =
        (case response_cache ?s1 ''subservices'' of
           None \<Rightarrow> (Inr (), log_error ''Exception when parsing response'' ?s1)
         | Some Malformed \<Rightarrow> (Inr (), log_error ''Exception when parsing response'' ?s1)
         | Some (Markup xml) \<Rightarrow> event_from_subservices w it dt xml ?s1)"
      unfolding update_current_event_def suffix by (simp add: dt case_prod_beta)
    then have "take (length (requests ?s1)) (requests (snd (update_current_event w it False s)))
        = requests ?s1"
      by (simp add: event_from_subservices_requests split: option.split body.split)
    moreover have "length (requests ?s1) = Suc (length (requests s))"
      unfolding sent' by simp
    ultimately have "take (Suc (length (requests s)))
        (requests (snd (update_current_event w it False s))) = requests ?s1"
      by simp
    then show ?thesis
      unfolding k u by (simp only: sent')
  qed
  from sent stored paged event show ?thesis by blast
qed

theorem forced_request_always_fetches_witness:
  "response_cache ((engine_with [])\<lparr>response_cache := [''about'' \<mapsto> Malformed]\<rparr>) ''about'' = Some Malformed
   \<and> requests (snd (cached_get_request (world_of (tv_box ''N/A'')) ''about'' ''http://box:80/web/about?'' False
        ((engine_with [])\<lparr>response_cache := [''about'' \<mapsto> Malformed]\<rparr>)))
      = [\<lparr>req_key = Some ''about'', req_url = ''http://box:80/web/about?'', req_ok = True\<rparr>]
   \<and> response_cache (snd (cached_get_request (world_of (tv_box ''N/A'')) ''about'' ''http://box:80/web/about?'' False
        ((engine_with [])\<lparr>response_cache := [''about'' \<mapsto> Malformed]\<rparr>))) ''about''
      = Some (Markup about_doc)"
  using forced_request_always_fetches [of "world_of (tv_box ''N/A'')" "''about''" "''http://box:80/web/about?''"
      "(engine_with [])\<lparr>response_cache := [''about'' \<mapsto> Malformed]\<rparr>"]
  by (simp add: engine_with_def init_def run_def world_of_def tv_box_def)

text \<open>
  C5, as the code has it. When the request of \<^verbatim>\<open>_cached_get_request\<close> fails, the
  method logs the error and returns normally; the cache is left exactly as it was, so no
  entry is stored and an entry already there (possible only when the request was forced)
  stays. With caching enabled the key is then absent, and \<^verbatim>\<open>_update\<close> ends without
  writing the slot of the binding.
\<close>

theorem failed_fetch_leaves_cache:
  assumes "box w (length (requests s)) u = Failure" and "response_cache s k = None \<or> \<not> cache"
  shows "cached_get_request w k u cache s =
           (Inr (), log_error ''Exception when sending GET request''
              (s\<lparr>requests := requests s @ [\<lparr>req_key = Some k, req_url = u, req_ok = False\<rparr>]\<rparr>))
         \<and> response_cache (snd (cached_get_request w k u cache s)) = response_cache s
         \<and> (cache \<and> conf it ''enigma2_data_type'' = Some dt \<and> conf it ''enigma2_page'' = Some k
              \<and> map_of url_suffix_map k = Some suf \<and> u = build_url (enigma2_device s) suf []
            \<longrightarrow> fst (update w it cache s) = Inr () \<and> slots (snd (update w it cache s)) = slots s)"
proof -
  have fetch: "cached_get_request w k u cache s =
      (Inr (), log_error ''Exception when sending GET request''
         (s\<lparr>requests := requests s @ [\<lparr>req_key = Some k, req_url = u, req_ok = False\<rparr>]\<rparr>))"
    using assms by (auto simp: cached_get_request_def session_get_def Let_def)
  have kept: "response_cache (snd (cached_get_request w k u cache s)) = response_cache s"
    by (simp add: fetch log_error_def)
  have "fst (update w it cache s) = Inr () \<and> slots (snd (update w it cache s)) = slots s"
    if "cache" "conf it ''enigma2_data_type'' = Some dt" "conf it ''enigma2_page'' = Some k"
      "map_of url_suffix_map k = Some suf" "u = build_url (enigma2_device s) suf []"
  proof -
    from that assms(2) have "response_cache s k = None" by simp
    with that kept show ?thesis
      by (simp add: update_def case_prod_beta)
  qed
  with fetch kept show ?thesis by blast
qed

theorem failed_fetch_leaves_cache_witness:
  "box (world_of (reachable_for 0 (tv_box ''N/A''))) 0 ''http://box:80/web/about?'' = Failure
   \<and> response_cache (engine_with []) ''about'' = None
   \<and> fst (update (world_of (reachable_for 0 (tv_box ''N/A''))) (paged 9 ''about'' ''e2model'' ''str'') True
        (engine_with [])) = Inr ()
   \<and> slots (snd (update (world_of (reachable_for 0 (tv_box ''N/A''))) (paged 9 ''about'' ''e2model'' ''str'') True
        (engine_with []))) 9 = Some (PStr ''old'')
   \<and> response_cache (snd (cached_get_request (world_of (reachable_for 0 (tv_box ''N/A''))) ''about''
        ''http://box:80/web/about?'' True (engine_with []))) ''about'' = None"
proof -
  let ?w = "world_of (reachable_for 0 (tv_box ''N/A''))"
  have down: "box ?w (length (requests (engine_with []))) ''http://box:80/web/about?'' = Failure"
    by (simp add: world_of_def reachable_for_def)
  have absent: "response_cache (engine_with []) ''about'' = None \<or> \<not> True"
    by (simp add: engine_with_def init_def run_def)
  show ?thesis
    using failed_fetch_leaves_cache [OF down absent, of "paged 9 ''about'' ''e2model'' ''str''"
        "''e2model''" "''/web/about''"]
    by (simp add: demo_defs)
qed

text \<open>
  C5 as stated fails: the forced event resolution over two service-name bindings sends
  one request for each; the box answers the first and not the second. The error of the
  second request is not passed on, the entry of the first stays in the cache, and the
  second binding is written from it.
\<close>

theorem failed_fetch_counterexample:
  "map req_ok (requests (snd (update_event_items (world_of (reachable_for 1 (tv_box ''N/A''))) False
        (engine_with [typed 1 ''e2servicename'', typed 2 ''e2servicename''])))) = [True, False]
   \<and> fst (update_event_items (world_of (reachable_for 1 (tv_box ''N/A''))) False
        (engine_with [typed 1 ''e2servicename'', typed 2 ''e2servicename''])) = Inr ()
   \<and> response_cache (snd (update_event_items (world_of (reachable_for 1 (tv_box ''N/A''))) False
        (engine_with [typed 1 ''e2servicename'', typed 2 ''e2servicename'']))) ''subservices''
      = Some (Markup (subservices_doc ''N/A''))
   \<and> slots (snd (update_event_items (world_of (reachable_for 1 (tv_box ''N/A''))) False
        (engine_with [typed 1 ''e2servicename'', typed 2 ''e2servicename'']))) 2 = Some (PStr ''ARD'')"
  by (simp add: demo_defs update_event_items_def update_current_event_def cached_get_request_def
      session_get_def log_error_def item_set_def event_from_subservices_def first_child_data_def
      write_current_event_def current_epgservice_def get_value_from_xml_node_def or_dash_def)

section \<open>Claims about the coercion of a located element\<close>

text \<open>
  C8. A binding of numeric kind whose located element starts with a text: the slot
  receives the integer when \<^verbatim>\<open>int\<close> accepts the text, else the float when
  \<^verbatim>\<open>float\<close> accepts it, and is left as it was when neither does; in each case
  \<^verbatim>\<open>_update\<close> returns normally.
\<close>

theorem numeric_binding_coercion:
  assumes "item_type it = ''num''"
    and "conf it ''enigma2_data_type'' = Some dt" and "conf it ''enigma2_page'' = Some p"
    and "map_of url_suffix_map p = Some suf"
    and "response_cache (snd (cached_get_request w p (build_url (enigma2_device s) suf []) c s)) p
           = Some (Markup xml)"
    and "getElementsByTagName xml dt = x # xs" and "firstChild x = Some (Chars t)"
  shows "fst (update w it c s) = Inr ()
         \<and> slots (snd (update w it c s)) =
             (case py_int w t of
                Some i \<Rightarrow> (slots s)(item_id it \<mapsto> PInt i)
              | None \<Rightarrow>
                  (case py_float w t of
                     Some f \<Rightarrow> (slots s)(item_id it \<mapsto> PFloat f)
                   | None \<Rightarrow> slots s))"
proof -
  let ?s1 = "snd (cached_get_request w p (build_url (enigma2_device s) suf []) c s)"
  have "update w it c s = write_element w it dt xml ?s1"
    using assms(2-5) by (rule update_reaches_write)
  also have "\<dots> = write_num w it x ?s1"
    using assms(1,6) by (simp add: write_element_def)
  finally have "update w it c s = write_num w it x ?s1" .
  then show ?thesis
    using assms(7) by (simp add: write_num_def split: option.split)
qed

theorem numeric_binding_coercion_witness:
  "slots (snd (update (world_of (tv_box ''N/A'')) (paged 1 ''about'' ''e2fpversion'' ''num'') True
      (engine_with []))) 1 = Some (PInt 42)
   \<and> slots (snd (update (world_of (tv_box ''N/A'')) (paged 1 ''about'' ''e2webifversion'' ''num'') True
      (engine_with []))) 1 = Some (PFloat (7, - 1))
   \<and> slots (snd (update (world_of (tv_box ''N/A'')) (paged 9 ''about'' ''e2imageversion'' ''num'') True
      (engine_with []))) 9 = Some (PStr ''old'')
   \<and> fst (update (world_of (tv_box ''N/A'')) (paged 9 ''about'' ''e2imageversion'' ''num'') True
      (engine_with [])) = Inr ()"
proof -
  let ?w = "world_of (tv_box ''N/A'')"
  let ?s = "engine_with [] :: (int \<times> int) Enigma2"
  have cached: "response_cache (snd (cached_get_request ?w ''about''
      (build_url (enigma2_device ?s) ''/web/about'' []) True ?s)) ''about'' = Some (Markup about_doc)"
    by (simp add: demo_defs cached_get_request_def case_prod_beta)
  have suffix: "map_of url_suffix_map ''about'' = Some ''/web/about''"
    by (simp add: url_suffix_map_def)
  have a: "getElementsByTagName about_doc ''e2fpversion'' = [Element ''e2fpversion'' [Chars ''42'']]"
    and b: "getElementsByTagName about_doc ''e2webifversion'' = [Element ''e2webifversion'' [Chars ''3.5'']]"
    and c: "getElementsByTagName about_doc ''e2imageversion'' = [Element ''e2imageversion'' [Chars ''abc'']]"
    by (simp_all add: about_doc_def getElementsByTagName_def)
  have "slots (snd (update ?w (paged 1 ''about'' ''e2fpversion'' ''num'') True ?s)) 1 = Some (PInt 42)"
    using numeric_binding_coercion [of "paged 1 ''about'' ''e2fpversion'' ''num''" "''e2fpversion''"
        "''about''" "''/web/about''" ?w ?s True about_doc _ "[]" "''42''", OF _ _ _ suffix cached a]
    by (simp add: paged_def binding_def world_of_def)
  moreover
  have "slots (snd (update ?w (paged 1 ''about'' ''e2webifversion'' ''num'') True ?s)) 1
          = Some (PFloat (7, - 1))"
    using numeric_binding_coercion [of "paged 1 ''about'' ''e2webifversion'' ''num''" "''e2webifversion''"
        "''about''" "''/web/about''" ?w ?s True about_doc _ "[]" "''3.5''", OF _ _ _ suffix cached b]
    by (simp add: paged_def binding_def world_of_def)
  moreover
  have "slots (snd (update ?w (paged 9 ''about'' ''e2imageversion'' ''num'') True ?s)) 9
          = Some (PStr ''old'')
        \<and> fst (update ?w (paged 9 ''about'' ''e2imageversion'' ''num'') True ?s) = Inr ()"
    using numeric_binding_coercion [of "paged 9 ''about'' ''e2imageversion'' ''num''" "''e2imageversion''"
        "''about''" "''/web/about''" ?w ?s True about_doc _ "[]" "''abc''", OF _ _ _ suffix cached c]
    by (simp add: paged_def binding_def world_of_def engine_with_def init_def run_def)
  ultimately show ?thesis by simp
qed

text \<open>
  C9, as the code has it. A binding of text kind (its type is neither \<^verbatim>\<open>'bool'\<close>
  nor \<^verbatim>\<open>'num'\<close>) receives the sentinel \<^verbatim>\<open>"-"\<close> when the located element holds
  the text \<^verbatim>\<open>N/A\<close> and when it is empty; when the response has no such element, the
  error is logged and the slot is left as it was.
\<close>

theorem text_binding_sentinel:
  assumes "item_type it \<noteq> ''bool''" and "item_type it \<noteq> ''num''"
    and "conf it ''enigma2_data_type'' = Some dt" and "conf it ''enigma2_page'' = Some p"
    and "map_of url_suffix_map p = Some suf"
    and "response_cache (snd (cached_get_request w p (build_url (enigma2_device s) suf []) c s)) p
           = Some (Markup xml)"
  shows "(getElementsByTagName xml dt = [] \<longrightarrow>
            fst (update w it c s) = Inr () \<and> slots (snd (update w it c s)) = slots s)
         \<and> (\<forall>x xs. getElementsByTagName xml dt = x # xs
                \<and> (firstChild x = None \<or> firstChild x = Some (Chars ''N/A'')) \<longrightarrow>
              fst (update w it c s) = Inr ()
              \<and> slots (snd (update w it c s)) = (slots s)(item_id it \<mapsto> PStr ''-''))"
proof -
  let ?s1 = "snd (cached_get_request w p (build_url (enigma2_device s) suf []) c s)"
  have reach: "update w it c s = write_element w it dt xml ?s1"
    using assms(3-6) by (rule update_reaches_write)
  have missing: "fst (update w it c s) = Inr () \<and> slots (snd (update w it c s)) = slots s"
    if "getElementsByTagName xml dt = []"
    using that by (simp add: reach write_element_def)
  have located: "fst (update w it c s) = Inr ()
      \<and> slots (snd (update w it c s)) = (slots s)(item_id it \<mapsto> PStr ''-'')"
    if "getElementsByTagName xml dt = x # xs"
      and "firstChild x = None \<or> firstChild x = Some (Chars ''N/A'')" for x xs
    using that assms(1,2) by (auto simp: reach write_element_def write_text_def)
  from missing located show ?thesis by blast
qed

theorem text_binding_sentinel_witness:
  "slots (snd (update (world_of (tv_box ''N/A'')) (paged 9 ''about'' ''e2enigmaversion'' ''str'') True
      (engine_with []))) 9 = Some (PStr ''-'')
   \<and> slots (snd (update (world_of (tv_box ''N/A'')) (paged 9 ''about'' ''e2lanmac'' ''str'') True
      (engine_with []))) 9 = Some (PStr ''-'')
   \<and> slots (snd (update (world_of (tv_box ''N/A'')) (paged 9 ''about'' ''e2tuner'' ''str'') True
      (engine_with []))) 9 = Some (PStr ''old'')"
proof -
  let ?w = "world_of (tv_box ''N/A'')"
  let ?s = "engine_with [] :: (int \<times> int) Enigma2"
  have cached: "response_cache (snd (cached_get_request ?w ''about''
      (build_url (enigma2_device ?s) ''/web/about'' []) True ?s)) ''about'' = Some (Markup about_doc)"
    by (simp add: demo_defs cached_get_request_def case_prod_beta)
  have suffix: "map_of url_suffix_map ''about'' = Some ''/web/about''"
    by (simp add: url_suffix_map_def)
  have a: "getElementsByTagName about_doc ''e2enigmaversion'' = [Element ''e2enigmaversion'' [Chars ''N/A'']]"
    and b: "getElementsByTagName about_doc ''e2lanmac'' = [Element ''e2lanmac'' []]"
    and c: "getElementsByTagName about_doc ''e2tuner'' = []"
    by (simp_all add: about_doc_def getElementsByTagName_def)
  have "slots (snd (update ?w (paged 9 ''about'' ''e2enigmaversion'' ''str'') True ?s)) 9 = Some (PStr ''-'')"
    using text_binding_sentinel [of "paged 9 ''about'' ''e2enigmaversion'' ''str''" "''e2enigmaversion''"
        "''about''" "''/web/about''" ?w ?s True about_doc, OF _ _ _ _ suffix cached] a
    by (simp add: paged_def binding_def)
  moreover
  have "slots (snd (update ?w (paged 9 ''about'' ''e2lanmac'' ''str'') True ?s)) 9 = Some (PStr ''-'')"
    using text_binding_sentinel [of "paged 9 ''about'' ''e2lanmac'' ''str''" "''e2lanmac''"
        "''about''" "''/web/about''" ?w ?s True about_doc, OF _ _ _ _ suffix cached] b
    by (simp add: paged_def binding_def)
  moreover
  have "slots (snd (update ?w (paged 9 ''about'' ''e2tuner'' ''str'') True ?s)) 9 = Some (PStr ''old'')"
    using text_binding_sentinel [of "paged 9 ''about'' ''e2tuner'' ''str''" "''e2tuner''"
        "''about''" "''/web/about''" ?w ?s True about_doc, OF _ _ _ _ suffix cached] c
    by (simp add: paged_def binding_def engine_with_def init_def run_def)
  ultimately show ?thesis by simp
qed

text \<open>
  C9 as stated fails for a field that is missing from the response: the slot keeps its
  earlier value and the error is logged.
\<close>

theorem text_binding_missing_counterexample:
  "slots (snd (update (world_of (tv_box ''N/A'')) (paged 9 ''about'' ''e2tuner'' ''str'') True
      (engine_with []))) 9 \<noteq> Some (PStr ''-'')
   \<and> errors (snd (update (world_of (tv_box ''N/A'')) (paged 9 ''about'' ''e2tuner'' ''str'') True
      (engine_with []))) = [''Attribute not available on the Enigma2Device'']"
  by (simp add: demo_defs step_defs)

section \<open>Claim about the audio tracks\<close>

lemma take_is_prefix: "take (length a) b = a \<longleftrightarrow> (\<exists>q. b = a @ q)"
proof
  assume "take (length a) b = a"
  then have "b = a @ drop (length a) b"
    by (metis append_take_drop_id)
  then show "\<exists>q. b = a @ q" ..
next
  assume "\<exists>q. b = a @ q"
  then show "take (length a) b = a" by auto
qed

text \<open>Python's \<^verbatim>\<open>in\<close> on strings is containment as a contiguous run.\<close>

lemma py_in_iff: "py_in a b \<longleftrightarrow> (\<exists>p q. b = p @ a @ q)"
proof (induction b)
  case Nil
  show ?case by simp
next
  case (Cons y ys)
  have "(\<exists>p q. y # ys = p @ a @ q) \<longleftrightarrow> (\<exists>q. y # ys = a @ q) \<or> (\<exists>p q. ys = p @ a @ q)"
  proof
    assume "\<exists>p q. y # ys = p @ a @ q"
    then obtain p q where pq: "y # ys = p @ a @ q" by blast
    show "(\<exists>q. y # ys = a @ q) \<or> (\<exists>p q. ys = p @ a @ q)"
    proof (cases p)
      case Nil
      with pq show ?thesis by auto
    next
      case (Cons z zs)
      with pq have "ys = zs @ a @ q" by simp
      then show ?thesis by blast
    qed
  next
    assume "(\<exists>q. y # ys = a @ q) \<or> (\<exists>p q. ys = p @ a @ q)"
    then show "\<exists>p q. y # ys = p @ a @ q"
    proof
      assume "\<exists>q. y # ys = a @ q"
      then obtain q where "y # ys = [] @ a @ q" by auto
      then show ?thesis by blast
    next
      assume "\<exists>p q. ys = p @ a @ q"
      then obtain p q where "y # ys = (y # p) @ a @ q" by auto
      then show ?thesis by blast
    qed
  qed
  with Cons show ?case
    by (simp only: py_in.simps take_is_prefix)
qed

lemma audio_track_entries_nth:
  "audio_track_entries w ns = Inr ts \<Longrightarrow>
     length ts = length ns \<and> (\<forall>i<length ns. audio_track_entry w (ns ! i) = Inr (ts ! i))"
proof (induction ns arbitrary: ts)
  case Nil
  then show ?case by simp
next
  case (Cons n ns)
  from Cons.prems obtain t ts' where t: "audio_track_entry w n = Inr t"
    and ts': "audio_track_entries w ns = Inr ts'" and ts: "ts = t # ts'"
    by (auto split: sum.splits)
  from Cons.IH [OF ts'] t ts show ?case
    by (auto simp: nth_Cons split: nat.split)
qed

lemma audio_track_entry_active:
  assumes "audio_track_entry w n = Inr e"
    and "getElementsByTagName n ''e2audiotrackactive'' = x # xs" and "firstChild x = Some (Chars t)"
  shows "e2audiotrackactive e = Some (py_in t ''True'')"
  using assms
  by (auto simp: audio_track_entry_def track_text_def first_child_data_def split: sum.splits)

text \<open>
  C10. In the result of \<^verbatim>\<open>get_audio_tracks\<close>, the entry of a track whose
  active-flag element starts with the text \<open>t\<close> has the flag \<^verbatim>\<open>True\<close> exactly when
  \<open>t\<close> occurs in \<^verbatim>\<open>True\<close> as a contiguous run, since line 347 tests
  \<^verbatim>\<open>data in 'True'\<close>.
\<close>

theorem audio_track_active_is_containment:
  assumes "box w (length (requests s)) (build_url (enigma2_device s) ''/web/getaudiotracks'' [])
             = Content (Markup xml)"
    and "fst (get_audio_tracks w s) = Inr (Some r)"
    and "i < length (getElementsByTagName xml ''e2audiotrack'')"
    and "getElementsByTagName (getElementsByTagName xml ''e2audiotrack'' ! i) ''e2audiotrackactive''
           = x # xs"
    and "firstChild x = Some (Chars t)"
  shows "i < length r \<and> e2audiotrackactive (r ! i) = Some (\<exists>p q. ''True'' = p @ t @ q)"
proof -
  let ?tracks = "getElementsByTagName xml ''e2audiotrack''"
  have "url_suffix ''getaudiotracks'' = ''/web/getaudiotracks''"
    by (simp add: url_suffix_def url_suffix_map_def)
  with assms(1,2) have "audio_track_entries w ?tracks = Inr r"
    by (simp add: get_audio_tracks_def case_prod_beta split: sum.splits)
  then have len: "length r = length ?tracks"
    and nth: "audio_track_entry w (?tracks ! i) = Inr (r ! i)"
    using assms(3) by (auto dest: audio_track_entries_nth)
  from audio_track_entry_active [OF nth assms(4,5)] len assms(3) show ?thesis
    by (simp add: py_in_iff)
qed

theorem audio_track_active_is_containment_witness:
  "e2audiotrackactive
     (the (projr (fst (get_audio_tracks (world_of (tv_box ''N/A'')) (engine_with [])))) ! 0) = Some True
   \<and> e2audiotrackactive
     (the (projr (fst (get_audio_tracks (world_of (tv_box ''N/A'')) (engine_with [])))) ! 1) = Some False
   \<and> e2audiotrackactive
     (the (projr (fst (get_audio_tracks (world_of (tv_box ''N/A'')) (engine_with [])))) ! 2) = Some True
   \<and> length (the (projr (fst (get_audio_tracks (world_of (tv_box ''N/A'')) (engine_with []))))) = 3"
proof -
  let ?w = "world_of (tv_box ''N/A'')"
  let ?s = "engine_with [] :: (int \<times> int) Enigma2"
  let ?r = "the (projr (fst (get_audio_tracks ?w ?s)))"
  have answer: "box ?w (length (requests ?s)) (build_url (enigma2_device ?s) ''/web/getaudiotracks'' [])
      = Content (Markup audio_doc)"
    by (simp add: demo_defs)
  have tracks: "getElementsByTagName audio_doc ''e2audiotrack'' =
      [Element ''e2audiotrack'' [Element ''e2audiotrackactive'' [Chars ''True'']],
       Element ''e2audiotrack'' [Element ''e2audiotrackactive'' [Chars ''False'']],
       Element ''e2audiotrack'' [Element ''e2audiotrackactive'' [Chars ''rue'']]]"
    by (simp add: audio_doc_def getElementsByTagName_def)
  have result: "fst (get_audio_tracks ?w ?s) = Inr (Some ?r)" and three: "length ?r = 3"
    by (simp_all add: demo_defs get_audio_tracks_def session_get_def audio_track_entry_def
        track_text_def track_int_def first_child_data_def)
  have t0: "e2audiotrackactive (?r ! 0) = Some (\<exists>p q. ''True'' = p @ ''True'' @ q)"
  proof -
    have "(0::nat) < length (getElementsByTagName audio_doc ''e2audiotrack'')"
      by (simp add: tracks)
    moreover have "getElementsByTagName (getElementsByTagName audio_doc ''e2audiotrack'' ! 0)
        ''e2audiotrackactive'' = Element ''e2audiotrackactive'' [Chars ''True''] # []"
      unfolding tracks by (simp add: getElementsByTagName_def)
    moreover have "firstChild (Element ''e2audiotrackactive'' [Chars ''True'']) = Some (Chars ''True'')"
      by simp
    ultimately show ?thesis
      using audio_track_active_is_containment [OF answer result] by blast
  qed
  have t1: "e2audiotrackactive (?r ! 1) = Some (\<exists>p q. ''True'' = p @ ''False'' @ q)"
  proof -
    have "(1::nat) < length (getElementsByTagName audio_doc ''e2audiotrack'')"
      by (simp add: tracks)
    moreover have "getElementsByTagName (getElementsByTagName audio_doc ''e2audiotrack'' ! 1)
        ''e2audiotrackactive'' = Element ''e2audiotrackactive'' [Chars ''False''] # []"
      unfolding tracks by (simp add: getElementsByTagName_def)
    moreover have "firstChild (Element ''e2audiotrackactive'' [Chars ''False'']) = Some (Chars ''False'')"
      by simp
    ultimately show ?thesis
      using audio_track_active_is_containment [OF answer result] by blast
  qed
  have t2: "e2audiotrackactive (?r ! 2) = Some (\<exists>p q. ''True'' = p @ ''rue'' @ q)"
  proof -
    have "(2::nat) < length (getElementsByTagName audio_doc ''e2audiotrack'')"
      by (simp add: tracks)
    moreover have "getElementsByTagName (getElementsByTagName audio_doc ''e2audiotrack'' ! 2)
        ''e2audiotrackactive'' = Element ''e2audiotrackactive'' [Chars ''rue''] # []"
      unfolding tracks by (simp add: getElementsByTagName_def)
    moreover have "firstChild (Element ''e2audiotrackactive'' [Chars ''rue'']) = Some (Chars ''rue'')"
      by simp
    ultimately show ?thesis
      using audio_track_active_is_containment [OF answer result] by blast
  qed
  have yes: "\<exists>p q. ''True'' = p @ ''True'' @ q" "\<exists>p q. ''True'' = p @ ''rue'' @ q"
    and no: "\<nexists>p q. ''True'' = p @ ''False'' @ q"
    using py_in_iff [of "''True''" "''True''"] py_in_iff [of "''rue''" "''True''"]
      py_in_iff [of "''False''" "''True''"]
    by simp_all
  from t0 t1 t2 yes no three show ?thesis by simp
qed

section \<open>Claims about the current event and the dispatch of commands\<close>

lemma update_current_event_reaches_write:
  assumes "conf it ''enigma2_data_type'' = Some dt"
    and "response_cache (snd (cached_get_request w ''subservices''
            (build_url (enigma2_device s) (url_suffix ''subservices'') []) c s)) ''subservices''
           = Some (Markup xml)"
    and "getElementsByTagName xml ''e2servicereference'' = x # xs"
    and "first_child_data x = Inr r"
  shows "update_current_event w it c s =
           write_current_event w it dt xml r
             (snd (cached_get_request w ''subservices''
                (build_url (enigma2_device s) (url_suffix ''subservices'') []) c s))"
  using assms by (simp add: update_current_event_def event_from_subservices_def case_prod_beta)

lemma write_current_event_no_service:
  assumes "dt \<in> set key_event_information"
  shows "write_current_event w it dt xml r s =
           (case current_epgservice w r s of
              (Inl e, s1) \<Rightarrow> (Inl e, s1)
            | (Inr epg, s1) \<Rightarrow>
                write_event_field it epg
                  (if dt = ''current_eventtitle'' then ''e2eventtitle''
                   else if dt = ''current_eventdescription'' then ''e2eventdescription''
                   else ''e2eventdescriptionextended'') s1)"
  using assms
  by (auto simp: write_current_event_def key_event_information_def split: prod.splits sum.splits)

text \<open>
  C6. In \<^verbatim>\<open>_update_current_event\<close>, once the service reference \<open>r\<close> has been read
  from the response of the subservices endpoint (state \<open>s1\<close>): when \<open>r\<close> is
  \<^verbatim>\<open>N/A\<close> or contains the reserved reference \<^verbatim>\<open>1:0:0:0:0:0:0:0:0:0\<close>, the event
  has its three fields set to \<^verbatim>\<open>"-"\<close>, no further request is sent, and a binding of
  one of the three event fields is written \<^verbatim>\<open>"-"\<close>; for any other reference exactly
  one further request is sent, to the EPG endpoint with that reference.
\<close>

theorem event_resolution_epg_request:
  assumes "conf it ''enigma2_data_type'' = Some dt"
    and "s1 = snd (cached_get_request w ''subservices''
            (build_url (enigma2_device s) ''/web/subservices'' []) c s)"
    and "response_cache s1 ''subservices'' = Some (Markup xml)"
    and "getElementsByTagName xml ''e2servicereference'' = x # xs"
    and "firstChild x = Some (Chars r)"
  shows "if r = ''N/A'' \<or> (\<exists>p q. r = p @ ''1:0:0:0:0:0:0:0:0:0'' @ q)
         then current_epgservice w r s1 =
                (Inr (Some [''e2eventtitle'' \<mapsto> ''-'', ''e2eventdescription'' \<mapsto> ''-'',
                            ''e2eventdescriptionextended'' \<mapsto> ''-'']), s1)
              \<and> requests (snd (update_current_event w it c s)) = requests s1
              \<and> (dt \<in> set key_event_information \<longrightarrow>
                   fst (update_current_event w it c s) = Inr ()
                   \<and> slots (snd (update_current_event w it c s)) = (slots s)(item_id it \<mapsto> PStr ''-''))
         else requests (snd (update_current_event w it c s)) =
                requests s1 @
                  [\<lparr>req_key = None,
                    req_url = build_url (enigma2_device s) ''/web/epgservice'' (''sRef='' @ r),
                    req_ok = (box w (length (requests s1))
                                (build_url (enigma2_device s) ''/web/epgservice'' (''sRef='' @ r)) \<noteq> Failure)\<rparr>]"
proof -
  have sub: "url_suffix ''subservices'' = ''/web/subservices''"
    and epg: "url_suffix ''epgservice'' = ''/web/epgservice''"
    by (simp_all add: url_suffix_def url_suffix_map_def)
  have ref: "first_child_data x = Inr r"
    using assms(5) by (simp add: first_child_data_def)
  have reach: "update_current_event w it c s = write_current_event w it dt xml r s1"
    using update_current_event_reaches_write [of it dt w s c xml x xs r] assms(1-4) ref
    by (simp add: sub)
  have dev: "enigma2_device s1 = enigma2_device s" and slt: "slots s1 = slots s"
    by (simp_all add: assms(2))
  show ?thesis
  proof (cases "r = ''N/A'' \<or> (\<exists>p q. r = p @ ''1:0:0:0:0:0:0:0:0:0'' @ q)")
    case True
    then have none: "current_epgservice w r s1 = (Inr (Some no_event), s1)"
      by (auto simp: current_epgservice_def py_in_iff)
    have "fst (update_current_event w it c s) = Inr ()
        \<and> slots (snd (update_current_event w it c s)) = (slots s)(item_id it \<mapsto> PStr ''-'')"
      if "dt \<in> set key_event_information"
      using that
      by (auto simp: reach write_current_event_no_service none write_event_field_def no_event_def
          key_event_information_def slt)
    moreover have "requests (snd (update_current_event w it c s)) = requests s1"
      by (simp add: reach none)
    ultimately show ?thesis
      using True none by (simp add: no_event_def)
  next
    case False
    then have "current_epgservice w r s1 = get_current_epgservice_for_service_reference w r s1"
      by (auto simp: current_epgservice_def py_in_iff)
    then have "requests (snd (update_current_event w it c s)) =
        requests (snd (get_current_epgservice_for_service_reference w r s1))"
      by (simp add: reach)
    with False show ?thesis
      by (simp add: epg dev)
  qed
qed

theorem event_resolution_epg_request_witness:
  "requests (snd (update_current_event (world_of (tv_box ''N/A'')) (typed 9 ''current_eventtitle'') True
      (engine_with [])))
     = [\<lparr>req_key = Some ''subservices'', req_url = ''http://box:80/web/subservices?'', req_ok = True\<rparr>]
   \<and> slots (snd (update_current_event (world_of (tv_box ''N/A'')) (typed 9 ''current_eventtitle'') True
      (engine_with []))) 9 = Some (PStr ''-'')
   \<and> requests (snd (update_current_event (world_of (tv_box ''1:0:19:283D:3FB:1:C00000:0:0:0:''))
      (typed 9 ''current_eventtitle'') True (engine_with [])))
     = [\<lparr>req_key = Some ''subservices'', req_url = ''http://box:80/web/subservices?'', req_ok = True\<rparr>,
        \<lparr>req_key = None, req_url = ''http://box:80/web/epgservice?sRef=1:0:19:283D:3FB:1:C00000:0:0:0:'',
          req_ok = True\<rparr>]"
proof -
  let ?s = "engine_with [] :: (int \<times> int) Enigma2"
  let ?it = "typed 9 ''current_eventtitle''"
  have dt: "conf ?it ''enigma2_data_type'' = Some ''current_eventtitle''"
    by (simp add: typed_def binding_def)
  have fetched: "snd (cached_get_request (world_of (tv_box r)) ''subservices''
        (build_url (enigma2_device ?s) ''/web/subservices'' []) True ?s)
      = ?s\<lparr>requests := [\<lparr>req_key = Some ''subservices'', req_url = ''http://box:80/web/subservices?'',
                            req_ok = True\<rparr>],
            response_cache := [''subservices'' \<mapsto> Markup (subservices_doc r)]\<rparr>" for r
    by (simp add: demo_defs cached_get_request_def session_get_def)
  have located: "getElementsByTagName (subservices_doc r) ''e2servicereference''
      = Element ''e2servicereference'' [Chars r] # []" for r
    by (simp add: subservices_doc_def getElementsByTagName_def)
  have first: "firstChild (Element ''e2servicereference'' [Chars r]) = Some (Chars r)" for r
    by simp
  have cache: "response_cache (snd (cached_get_request (world_of (tv_box r)) ''subservices''
        (build_url (enigma2_device ?s) ''/web/subservices'' []) True ?s)) ''subservices''
      = Some (Markup (subservices_doc r))" for r
    by (simp add: fetched)
  have "''N/A'' = ''N/A'' \<or> (\<exists>p q. ''N/A'' = p @ ''1:0:0:0:0:0:0:0:0:0'' @ q)"
    by simp
  note no_service = event_resolution_epg_request [OF dt refl cache [of "''N/A''"]
      located [of "''N/A''"] first [of "''N/A''"], unfolded if_P [OF this]]
  have idle: "requests (snd (update_current_event (world_of (tv_box ''N/A'')) ?it True ?s))
        = [\<lparr>req_key = Some ''subservices'', req_url = ''http://box:80/web/subservices?'', req_ok = True\<rparr>]
      \<and> slots (snd (update_current_event (world_of (tv_box ''N/A'')) ?it True ?s)) 9 = Some (PStr ''-'')"
    using no_service
    by (simp add: fetched key_event_information_def typed_def binding_def)
  have "''1:0:19:283D:3FB:1:C00000:0:0:0:'' \<noteq> ''N/A''
      \<and> \<not> py_in ''1:0:0:0:0:0:0:0:0:0'' ''1:0:19:283D:3FB:1:C00000:0:0:0:''"
    by simp
  then have other: "\<not> (''1:0:19:283D:3FB:1:C00000:0:0:0:'' = ''N/A''
      \<or> (\<exists>p q. ''1:0:19:283D:3FB:1:C00000:0:0:0:'' = p @ ''1:0:0:0:0:0:0:0:0:0'' @ q))"
    unfolding py_in_iff by blast
  note service = event_resolution_epg_request [OF dt refl
      cache [of "''1:0:19:283D:3FB:1:C00000:0:0:0:''"] located [of "''1:0:19:283D:3FB:1:C00000:0:0:0:''"]
      first [of "''1:0:19:283D:3FB:1:C00000:0:0:0:''"], unfolded if_not_P [OF other]]
  have tuned: "requests (snd (update_current_event (world_of (tv_box ''1:0:19:283D:3FB:1:C00000:0:0:0:''))
        ?it True ?s))
      = [\<lparr>req_key = Some ''subservices'', req_url = ''http://box:80/web/subservices?'', req_ok = True\<rparr>,
         \<lparr>req_key = None, req_url = ''http://box:80/web/epgservice?sRef=1:0:19:283D:3FB:1:C00000:0:0:0:'',
           req_ok = True\<rparr>]"
    unfolding service
    by (simp add: demo_defs cached_get_request_def session_get_def)
  from idle tuned show ?thesis by simp
qed

text \<open>
  What \<^verbatim>\<open>execute_item\<close> is for a remote-control item with command 105 or 114,
  written by a caller other than the plugin: lines 283-288 with the tests on the
  command evaluated.
\<close>

lemma execute_item_remote_command:
  assumes "caller \<noteq> Some ''Enigma2''"
  shows "(conf it ''enigma2_remote_command_id'' = Some ''105'' \<longrightarrow>
            execute_item w it caller s =
              (case remote_control_command w ''105'' s of
                 (Inl e, s1) \<Rightarrow> (Inl e, s1)
               | (Inr u, s1) \<Rightarrow>
                   (case update_event_items w False s1 of
                      (Inl e, s2) \<Rightarrow> (Inl e, s2)
                    | (Inr u, s2) \<Rightarrow> update_loop_fast w False s2)))
         \<and> (conf it ''enigma2_remote_command_id'' = Some ''114'' \<longrightarrow>
            execute_item w it caller s =
              (case remote_control_command w ''114'' s of
                 (Inl e, s1) \<Rightarrow> (Inl e, s1)
               | (Inr u, s1) \<Rightarrow> update_loop_fast w False s1))"
  using assms
  by (simp add: execute_item_def resync_event_and_fast_def case_prod_beta split: sum.split)

lemma update_fast_item_passes:
  "event_passes (snd (update_fast_item w c it s)) =
     event_passes s @ (if calls_event_resolution it then [c] else [])"
  by (simp add: update_fast_item_def calls_event_resolution_def split: option.split)

lemma update_loop_fast_items_passes:
  assumes "alive s = Some True" and "fst (update_loop_fast_items w c its s) = Inr b"
  shows "event_passes (snd (update_loop_fast_items w c its s)) =
           event_passes s @ replicate (length (filter calls_event_resolution its)) c"
  using assms
proof (induction its arbitrary: s)
  case Nil
  then show ?case by simp
next
  case (Cons it its)
  let ?s1 = "snd (update_fast_item w c it s)"
  from Cons.prems obtain u where step: "fst (update_fast_item w c it s) = Inr u"
    and rest: "fst (update_loop_fast_items w c its ?s1) = Inr b"
    by (cases "fst (update_fast_item w c it s)") (simp_all add: case_prod_beta)
  have "alive ?s1 = Some True"
    using Cons.prems(1) by simp
  from Cons.IH [OF this rest]
  have "event_passes (snd (update_loop_fast_items w c its ?s1)) =
      event_passes ?s1 @ replicate (length (filter calls_event_resolution its)) c" .
  moreover have "snd (update_loop_fast_items w c (it # its) s) = snd (update_loop_fast_items w c its ?s1)"
    using Cons.prems(1) step by (simp add: case_prod_beta)
  ultimately show ?case
    by (simp add: update_fast_item_passes)
qed

lemma update_loop_fast_items_idle:
  assumes "alive s \<noteq> Some True" and "fst (update_loop_fast_items w c its s) = Inr b"
  shows "snd (update_loop_fast_items w c its s) = s"
proof (cases its)
  case Nil
  then show ?thesis by simp
next
  case (Cons it rest)
  with assms show ?thesis
    by (cases "alive s") (auto split: bool.splits)
qed

lemma update_loop_fast_passes:
  assumes "fst (update_loop_fast w c s) = Inr ()"
  shows "event_passes (snd (update_loop_fast w c s)) =
           event_passes s @ replicate (cycle_event_passes s) c"
proof -
  let ?run = "update_loop_fast_items w c (items_fast (enigma2_device s)) s"
  from assms obtain b where b: "fst ?run = Inr b"
    by (cases "fst ?run") (simp_all add: update_loop_fast_def case_prod_beta)
  then have same: "event_passes (snd (update_loop_fast w c s)) = event_passes (snd ?run)"
    by (simp add: update_loop_fast_def case_prod_beta split: bool.split)
  show ?thesis
  proof (cases "alive s = Some True")
    case True
    from update_loop_fast_items_passes [OF True b] same True show ?thesis
      by (simp add: cycle_event_passes_def)
  next
    case False
    from update_loop_fast_items_idle [OF False b] same False show ?thesis
      by (simp add: cycle_event_passes_def)
  qed
qed

text \<open>
  C7, as the code has it. A remote-control item is written by a caller other than the
  plugin and the dispatch returns. For command 105 the dispatcher sends the command,
  calls \<^verbatim>\<open>_update_event_items\<close> once with \<open>cache = False\<close> and then runs the fast
  cycle once with \<open>cache = False\<close>; for command 114 it sends the command and runs the
  fast cycle once with \<open>cache = False\<close>. The fast cycle calls
  \<^verbatim>\<open>_update_event_items\<close> itself, once for every event binding of its registry on
  a running engine, so the dispatch makes one such call more than that number for 105
  and that number for 114, all with \<open>cache = False\<close>: exactly one and none only when
  the fast cycle makes none.
\<close>

theorem dispatch_resync_passes:
  assumes "caller \<noteq> Some ''Enigma2''" and "fst (execute_item w it caller s) = Inr ()"
  shows "(conf it ''enigma2_remote_command_id'' = Some ''105'' \<longrightarrow>
            fst (remote_control_command w ''105'' s) = Inr ()
            \<and> fst (update_event_items w False (snd (remote_control_command w ''105'' s))) = Inr ()
            \<and> execute_item w it caller s =
                update_loop_fast w False
                  (snd (update_event_items w False (snd (remote_control_command w ''105'' s))))
            \<and> event_passes (snd (execute_item w it caller s)) =
                event_passes s @ replicate (1 + cycle_event_passes s) False)
         \<and> (conf it ''enigma2_remote_command_id'' = Some ''114'' \<longrightarrow>
            fst (remote_control_command w ''114'' s) = Inr ()
            \<and> execute_item w it caller s =
                update_loop_fast w False (snd (remote_control_command w ''114'' s))
            \<and> event_passes (snd (execute_item w it caller s)) =
                event_passes s @ replicate (cycle_event_passes s) False)"
proof -
  have standby: "fst (remote_control_command w ''105'' s) = Inr ()
      \<and> fst (update_event_items w False (snd (remote_control_command w ''105'' s))) = Inr ()
      \<and> execute_item w it caller s =
          update_loop_fast w False
            (snd (update_event_items w False (snd (remote_control_command w ''105'' s))))
      \<and> event_passes (snd (execute_item w it caller s)) =
          event_passes s @ replicate (1 + cycle_event_passes s) False"
    if command: "conf it ''enigma2_remote_command_id'' = Some ''105''"
  proof -
    let ?s1 = "snd (remote_control_command w ''105'' s)"
    let ?s2 = "snd (update_event_items w False ?s1)"
    from execute_item_remote_command [OF assms(1), of it w s] command
    have unfolded: "execute_item w it caller s =
        (case remote_control_command w ''105'' s of
           (Inl e, s1) \<Rightarrow> (Inl e, s1)
         | (Inr u, s1) \<Rightarrow>
             (case update_event_items w False s1 of
                (Inl e, s2) \<Rightarrow> (Inl e, s2)
              | (Inr u, s2) \<Rightarrow> update_loop_fast w False s2))"
      by blast
    have sent: "fst (remote_control_command w ''105'' s) = Inr ()"
      using assms(2) unfolded
      by (cases "fst (remote_control_command w ''105'' s)") (simp_all add: case_prod_beta)
    have resolved: "fst (update_event_items w False ?s1) = Inr ()"
      using assms(2) unfolded sent
      by (cases "fst (update_event_items w False ?s1)") (simp_all add: case_prod_beta)
    have cycle: "execute_item w it caller s = update_loop_fast w False ?s2"
      using unfolded sent resolved by (simp add: case_prod_beta)
    with assms(2) have "fst (update_loop_fast w False ?s2) = Inr ()"
      by simp
    from update_loop_fast_passes [OF this]
    have "event_passes (snd (update_loop_fast w False ?s2)) =
        event_passes s @ False # replicate (cycle_event_passes s) False"
      by (simp add: cycle_event_passes_def)
    with sent resolved cycle show ?thesis
      by simp
  qed
  have volume: "fst (remote_control_command w ''114'' s) = Inr ()
      \<and> execute_item w it caller s =
          update_loop_fast w False (snd (remote_control_command w ''114'' s))
      \<and> event_passes (snd (execute_item w it caller s)) =
          event_passes s @ replicate (cycle_event_passes s) False"
    if command: "conf it ''enigma2_remote_command_id'' = Some ''114''"
  proof -
    let ?s1 = "snd (remote_control_command w ''114'' s)"
    from execute_item_remote_command [OF assms(1), of it w s] command
    have unfolded: "execute_item w it caller s =
        (case remote_control_command w ''114'' s of
           (Inl e, s1) \<Rightarrow> (Inl e, s1)
         | (Inr u, s1) \<Rightarrow> update_loop_fast w False s1)"
      by blast
    have sent: "fst (remote_control_command w ''114'' s) = Inr ()"
      using assms(2) unfolded
      by (cases "fst (remote_control_command w ''114'' s)") (simp_all add: case_prod_beta)
    have cycle: "execute_item w it caller s = update_loop_fast w False ?s1"
      using unfolded sent by (simp add: case_prod_beta)
    with assms(2) have "fst (update_loop_fast w False ?s1) = Inr ()"
      by simp
    from update_loop_fast_passes [OF this]
    have "event_passes (snd (update_loop_fast w False ?s1)) =
        event_passes s @ replicate (cycle_event_passes s) False"
      by (simp add: cycle_event_passes_def)
    with sent cycle show ?thesis
      by simp
  qed
  from standby volume show ?thesis by blast
qed

theorem dispatch_resync_passes_witness:
  "fst (execute_item (world_of (tv_box ''N/A'')) (command 7 ''105'') None
      (engine_with [typed 1 ''e2servicename''])) = Inr ()
   \<and> cycle_event_passes (engine_with [typed 1 ''e2servicename'']) = 0
   \<and> event_passes (snd (execute_item (world_of (tv_box ''N/A'')) (command 7 ''105'') None
      (engine_with [typed 1 ''e2servicename'']))) = [False]
   \<and> event_passes (snd (execute_item (world_of (tv_box ''N/A'')) (command 7 ''114'') None
      (engine_with [typed 1 ''e2servicename'']))) = []
   \<and> cycle_event_passes (engine_with [typed 1 ''current_eventtitle'', typed 2 ''current_eventdescription'']) = 2
   \<and> event_passes (snd (execute_item (world_of (tv_box ''N/A'')) (command 7 ''105'') None
      (engine_with [typed 1 ''current_eventtitle'', typed 2 ''current_eventdescription''])))
     = [False, False, False]"
proof -
  let ?w = "world_of (tv_box ''N/A'')"
  let ?s = "engine_with [typed 1 ''e2servicename''] :: (int \<times> int) Enigma2"
  let ?t = "engine_with [typed 1 ''current_eventtitle'', typed 2 ''current_eventdescription'']
    :: (int \<times> int) Enigma2"
  have caller: "None \<noteq> Some ''Enigma2''" by simp
  have standby: "conf (command 7 ''105'') ''enigma2_remote_command_id'' = Some ''105''"
    and volume: "conf (command 7 ''114'') ''enigma2_remote_command_id'' = Some ''114''"
    by (simp_all add: command_def binding_def)
  have returns: "fst (execute_item ?w (command 7 ''105'') None ?s) = Inr ()"
    "fst (execute_item ?w (command 7 ''114'') None ?s) = Inr ()"
    "fst (execute_item ?w (command 7 ''105'') None ?t) = Inr ()"
    by (simp_all add: demo_defs run_defs)
  have none: "cycle_event_passes ?s = 0" and two: "cycle_event_passes ?t = 2"
    and before: "event_passes ?s = []" "event_passes ?t = []"
    by (simp_all add: demo_defs cycle_event_passes_def calls_event_resolution_def)
  from dispatch_resync_passes [OF caller returns(1)] standby
  have "event_passes (snd (execute_item ?w (command 7 ''105'') None ?s)) =
      event_passes ?s @ replicate (1 + cycle_event_passes ?s) False"
    by blast
  moreover from dispatch_resync_passes [OF caller returns(2)] volume
  have "event_passes (snd (execute_item ?w (command 7 ''114'') None ?s)) =
      event_passes ?s @ replicate (cycle_event_passes ?s) False"
    by blast
  moreover from dispatch_resync_passes [OF caller returns(3)] standby
  have "event_passes (snd (execute_item ?w (command 7 ''105'') None ?t)) =
      event_passes ?t @ replicate (1 + cycle_event_passes ?t) False"
    by blast
  ultimately show ?thesis
    using returns(1) none two before by (simp add: numeral_2_eq_2)
qed

text \<open>
  C7 as stated fails on a running engine whose fast registry holds an event-title
  binding. The dispatch of command 114 returns and has made one call of
  \<^verbatim>\<open>_update_event_items\<close>, inside its fast cycle: the subservices endpoint was asked
  and the binding written. The dispatch of command 105 has made two such calls, its own
  and the one of its fast cycle, and asked the endpoint twice.
\<close>

theorem dispatch_event_resolution_counterexample:
  "fst (execute_item (world_of (tv_box ''N/A'')) (command 7 ''114'') None
      (engine_with [typed 1 ''current_eventtitle''])) = Inr ()
   \<and> event_passes (snd (execute_item (world_of (tv_box ''N/A'')) (command 7 ''114'') None
      (engine_with [typed 1 ''current_eventtitle'']))) = [False]
   \<and> map req_url (requests (snd (execute_item (world_of (tv_box ''N/A'')) (command 7 ''114'') None
      (engine_with [typed 1 ''current_eventtitle'']))))
     = [''http://box:80/web/remotecontrol?command=114'', ''http://box:80/web/subservices?'']
   \<and> slots (snd (execute_item (world_of (tv_box ''N/A'')) (command 7 ''114'') None
      (engine_with [typed 1 ''current_eventtitle'']))) 1 = Some (PStr ''-'')
   \<and> fst (execute_item (world_of (tv_box ''N/A'')) (command 7 ''105'') None
      (engine_with [typed 1 ''current_eventtitle''])) = Inr ()
   \<and> event_passes (snd (execute_item (world_of (tv_box ''N/A'')) (command 7 ''105'') None
      (engine_with [typed 1 ''current_eventtitle'']))) = [False, False]
   \<and> map req_url (requests (snd (execute_item (world_of (tv_box ''N/A'')) (command 7 ''105'') None
      (engine_with [typed 1 ''current_eventtitle'']))))
     = [''http://box:80/web/remotecontrol?command=105'', ''http://box:80/web/subservices?'',
        ''http://box:80/web/subservices?'']"
  by (simp add: demo_defs run_defs)

section \<open>Claims about the two cycles\<close>

lemma update_loop_items_runs:
  "alive s = Some True \<Longrightarrow> fst (update_loop_items w its s) \<noteq> Inr False"
  by (induction its arbitrary: s) (simp_all add: case_prod_beta split: sum.split)

lemma update_loop_fast_items_runs:
  "alive s = Some True \<Longrightarrow> fst (update_loop_fast_items w c its s) \<noteq> Inr False"
  by (induction its arbitrary: s) (simp_all add: case_prod_beta split: sum.split)

text \<open>
  C2, as the code has it. A cycle invocation, slow or fast, that goes through its whole
  registry (the engine is running) and returns has cleared the Response Cache. An
  invocation that finds the engine stopped returns before the next binding and leaves
  the engine, its cache included, as it was.
\<close>

theorem cache_cleared_by_completed_cycle:
  "(alive s = Some True \<and> fst (update_loop w s) = Inr () \<longrightarrow>
      response_cache (snd (update_loop w s)) = Map.empty)
   \<and> (alive s = Some True \<and> fst (update_loop_fast w c s) = Inr () \<longrightarrow>
      response_cache (snd (update_loop_fast w c s)) = Map.empty)
   \<and> (alive s = Some False \<and> items (enigma2_device s) \<noteq> [] \<longrightarrow> update_loop w s = (Inr (), s))
   \<and> (alive s = Some False \<and> items_fast (enigma2_device s) \<noteq> [] \<longrightarrow>
      update_loop_fast w c s = (Inr (), s))"
proof -
  have slow: "response_cache (snd (update_loop w s)) = Map.empty"
    if "alive s = Some True" "fst (update_loop w s) = Inr ()"
  proof (cases "fst (update_loop_items w (items (enigma2_device s)) s)")
    case (Inl e)
    with that(2) show ?thesis by (simp add: update_loop_def case_prod_beta)
  next
    case (Inr b)
    with update_loop_items_runs [OF that(1), of w "items (enigma2_device s)"] have "b" by auto
    with Inr show ?thesis by (simp add: update_loop_def case_prod_beta)
  qed
  have fast: "response_cache (snd (update_loop_fast w c s)) = Map.empty"
    if "alive s = Some True" "fst (update_loop_fast w c s) = Inr ()"
  proof (cases "fst (update_loop_fast_items w c (items_fast (enigma2_device s)) s)")
    case (Inl e)
    with that(2) show ?thesis by (simp add: update_loop_fast_def case_prod_beta)
  next
    case (Inr b)
    with update_loop_fast_items_runs [OF that(1), of w c "items_fast (enigma2_device s)"]
    have "b" by auto
    with Inr show ?thesis by (simp add: update_loop_fast_def case_prod_beta)
  qed
  have slow_stopped: "update_loop w s = (Inr (), s)"
    if "alive s = Some False" "items (enigma2_device s) \<noteq> []"
    using that by (cases "items (enigma2_device s)") (simp_all add: update_loop_def)
  have fast_stopped: "update_loop_fast w c s = (Inr (), s)"
    if "alive s = Some False" "items_fast (enigma2_device s) \<noteq> []"
    using that by (cases "items_fast (enigma2_device s)") (simp_all add: update_loop_fast_def)
  from slow fast slow_stopped fast_stopped show ?thesis by blast
qed

theorem cache_cleared_by_completed_cycle_witness:
  "alive (engine_with [paged 1 ''about'' ''e2model'' ''str'']) = Some True
   \<and> fst (update_loop (world_of (tv_box ''N/A'')) (engine_with [paged 1 ''about'' ''e2model'' ''str'']))
       = Inr ()
   \<and> slots (snd (update_loop (world_of (tv_box ''N/A''))
        (engine_with [paged 1 ''about'' ''e2model'' ''str'']))) 1 = Some (PStr ''solo4k'')
   \<and> response_cache (snd (update_loop (world_of (tv_box ''N/A''))
        (engine_with [paged 1 ''about'' ''e2model'' ''str'']))) = Map.empty
   \<and> alive (stop (engine_with [paged 1 ''about'' ''e2model'' ''str''])) = Some False
   \<and> update_loop (world_of (tv_box ''N/A'')) (stop (engine_with [paged 1 ''about'' ''e2model'' ''str'']))
       = (Inr (), stop (engine_with [paged 1 ''about'' ''e2model'' ''str'']))"
proof -
  let ?w = "world_of (tv_box ''N/A'')"
  let ?s = "engine_with [paged 1 ''about'' ''e2model'' ''str'']"
  have running: "alive ?s = Some True" and stopped: "alive (stop ?s) = Some False"
    and registry: "items (enigma2_device (stop ?s)) \<noteq> []"
    by (simp_all add: demo_defs)
  have returns: "fst (update_loop ?w ?s) = Inr ()"
    and written: "slots (snd (update_loop ?w ?s)) 1 = Some (PStr ''solo4k'')"
    by (simp_all add: demo_defs run_defs)
  from cache_cleared_by_completed_cycle [of ?s ?w True] running returns
  have "response_cache (snd (update_loop ?w ?s)) = Map.empty" by blast
  moreover from cache_cleared_by_completed_cycle [of "stop ?s" ?w True] stopped registry
  have "update_loop ?w (stop ?s) = (Inr (), stop ?s)" by blast
  ultimately show ?thesis
    using running stopped returns written by simp
qed

text \<open>
  C2 as stated fails. On a stopped engine with a service-name binding, the dispatch of
  command 105 runs the forced event resolution, which fills the cache, and then the
  forced fast cycle, which returns at its first binding without clearing: the cache
  still holds the response afterwards. On a running engine the same dispatch starts its
  fast cycle on the cache that the event resolution has just filled.
\<close>

theorem cache_not_cleared_counterexample:
  "fst (execute_item (world_of (tv_box ''N/A'')) (command 7 ''105'') None
      (stop (engine_with [typed 1 ''e2servicename'']))) = Inr ()
   \<and> response_cache (snd (execute_item (world_of (tv_box ''N/A'')) (command 7 ''105'') None
      (stop (engine_with [typed 1 ''e2servicename''])))) ''subservices''
      = Some (Markup (subservices_doc ''N/A''))
   \<and> update_loop_fast (world_of (tv_box ''N/A'')) False
        (snd (update_event_items (world_of (tv_box ''N/A'')) False
           (snd (remote_control_command (world_of (tv_box ''N/A'')) ''105''
              (stop (engine_with [typed 1 ''e2servicename'']))))))
      = execute_item (world_of (tv_box ''N/A'')) (command 7 ''105'') None
          (stop (engine_with [typed 1 ''e2servicename'']))
   \<and> response_cache (snd (update_event_items (world_of (tv_box ''N/A'')) False
        (snd (remote_control_command (world_of (tv_box ''N/A'')) ''105''
           (engine_with [typed 1 ''e2servicename'']))))) ''subservices''
      = Some (Markup (subservices_doc ''N/A''))"
  by (simp add: demo_defs run_defs)

text \<open>
  C3: the fast cycle does not survive every failure of one binding. The registry holds
  an event-title binding and a standby binding. When the response of the subservices
  endpoint names no service reference, the event resolution logs the missing attribute
  and then raises \<^verbatim>\<open>UnboundLocalError\<close>; when the request to the EPG endpoint fails,
  it raises \<^verbatim>\<open>TypeError\<close>. Either exception leaves the cycle: the standby binding,
  which the same box resolves when it stands alone, is not written.
\<close>

theorem fast_cycle_aborted_by_event_failure:
  "fst (update_loop_fast (world_of bare_box) True
      (engine_with [typed 1 ''current_eventtitle'', paged 2 ''powerstate'' ''e2instandby'' ''bool'']))
     = Inl UnboundLocalError
   \<and> errors (snd (update_loop_fast (world_of bare_box) True
      (engine_with [typed 1 ''current_eventtitle'', paged 2 ''powerstate'' ''e2instandby'' ''bool''])))
     = [''Attribute not available on the Enigma2Device'']
   \<and> slots (snd (update_loop_fast (world_of bare_box) True
      (engine_with [typed 1 ''current_eventtitle'', paged 2 ''powerstate'' ''e2instandby'' ''bool'']))) 2
     = None
   \<and> fst (update_loop_fast (world_of (reachable_for 1 (tv_box ''1:0:19:283D:3FB:1:C00000:0:0:0:''))) True
      (engine_with [typed 1 ''current_eventtitle'', paged 2 ''powerstate'' ''e2instandby'' ''bool'']))
     = Inl TypeError
   \<and> slots (snd (update_loop_fast (world_of (reachable_for 1 (tv_box ''1:0:19:283D:3FB:1:C00000:0:0:0:''))) True
      (engine_with [typed 1 ''current_eventtitle'', paged 2 ''powerstate'' ''e2instandby'' ''bool'']))) 2
     = None
   \<and> slots (snd (update_loop_fast (world_of bare_box) True
      (engine_with [paged 2 ''powerstate'' ''e2instandby'' ''bool'']))) 2
     = Some (PInt 1)"
  by (simp add: demo_defs run_defs)

section \<open>Claim about the deduplication of requests\<close>

lemma dedup_refl [simp]: "dedup_step k s s"
  by (simp add: dedup_step_def fetches_def)

lemma dedup_trans:
  assumes "dedup_step k s s1" and "dedup_step k s1 s2"
  shows "dedup_step k s s2"
proof -
  from assms(1) obtain l1 where l1: "requests s1 = requests s @ l1"
    and c1: "if response_cache s k \<noteq> None then response_cache s1 k \<noteq> None \<and> fetches k l1 = []
         else if response_cache s1 k \<noteq> None then (\<forall>r\<in>set (butlast (fetches k l1)). \<not> req_ok r)
         else (\<forall>r\<in>set (fetches k l1). \<not> req_ok r)"
    unfolding dedup_step_def by blast
  from assms(2) obtain l2 where l2: "requests s2 = requests s1 @ l2"
    and c2: "if response_cache s1 k \<noteq> None then response_cache s2 k \<noteq> None \<and> fetches k l2 = []
         else if response_cache s2 k \<noteq> None then (\<forall>r\<in>set (butlast (fetches k l2)). \<not> req_ok r)
         else (\<forall>r\<in>set (fetches k l2). \<not> req_ok r)"
    unfolding dedup_step_def by blast
  have app: "fetches k (l1 @ l2) = fetches k l1 @ fetches k l2"
    by (simp add: fetches_def)
  have "if response_cache s k \<noteq> None then response_cache s2 k \<noteq> None \<and> fetches k (l1 @ l2) = []
         else if response_cache s2 k \<noteq> None
           then (\<forall>r\<in>set (butlast (fetches k (l1 @ l2))). \<not> req_ok r)
         else (\<forall>r\<in>set (fetches k (l1 @ l2)). \<not> req_ok r)"
  proof (cases "response_cache s k \<noteq> None")
    case True
    with c1 c2 show ?thesis by (simp add: app)
  next
    case absent: False
    show ?thesis
    proof (cases "response_cache s1 k \<noteq> None")
      case True
      with absent c1 c2 show ?thesis by (simp add: app)
    next
      case False
      with absent c1 have failed: "\<forall>r\<in>set (fetches k l1). \<not> req_ok r" by simp
      show ?thesis
      proof (cases "response_cache s2 k \<noteq> None")
        case True
        with False c2 have "\<forall>r\<in>set (butlast (fetches k l2)). \<not> req_ok r" by simp
        with failed absent True show ?thesis
          by (auto simp: app butlast_append dest: in_set_butlastD)
      next
        case False
        with \<open>\<not> response_cache s1 k \<noteq> None\<close> c2 have "\<forall>r\<in>set (fetches k l2). \<not> req_ok r" by simp
        with failed absent False show ?thesis by (auto simp: app)
      qed
    qed
  qed
  moreover have "requests s2 = requests s @ (l1 @ l2)"
    by (simp add: l1 l2)
  ultimately show ?thesis
    unfolding dedup_step_def by blast
qed

lemma dedup_same:
  "requests s2 = requests s1 \<Longrightarrow> response_cache s2 = response_cache s1 \<Longrightarrow>
     dedup_step k s s2 = dedup_step k s s1"
  by (simp add: dedup_step_def)

lemma dedup_log_error [simp]: "dedup_step k s (log_error m s1) = dedup_step k s s1"
  by (rule dedup_same) simp_all

lemma dedup_item_set [simp]: "dedup_step k s (item_set it v s1) = dedup_step k s s1"
  by (rule dedup_same) simp_all

lemma dedup_write_element [simp]:
  "dedup_step k s (snd (write_element w it dt xml s1)) = dedup_step k s s1"
  by (rule dedup_same) simp_all

lemma dedup_uncached:
  assumes "requests s' = requests s @ [r]" and "req_key r = None"
    and "response_cache s' = response_cache s"
  shows "dedup_step k s s'"
  unfolding dedup_step_def using assms by (auto simp: fetches_def)

lemma dedup_cached_get_request [simp]: "dedup_step k s (snd (cached_get_request w k' u True s))"
proof (cases "response_cache s k' = None")
  case False
  then show ?thesis by (auto simp: cached_get_request_def)
next
  case True
  let ?r = "\<lparr>req_key = Some k', req_url = u, req_ok = (box w (length (requests s)) u \<noteq> Failure)\<rparr>"
  show ?thesis
  proof (cases "box w (length (requests s)) u")
    case Failure
    with True have "requests (snd (cached_get_request w k' u True s)) = requests s @ [?r]"
      and "response_cache (snd (cached_get_request w k' u True s)) = response_cache s"
      by (simp_all add: cached_get_request_def case_prod_beta)
    with Failure True show ?thesis
      unfolding dedup_step_def by (auto simp: fetches_def)
  next
    case (Content b)
    with True have "requests (snd (cached_get_request w k' u True s)) = requests s @ [?r]"
      and "response_cache (snd (cached_get_request w k' u True s)) = (response_cache s)(k' \<mapsto> b)"
      by (simp_all add: cached_get_request_def case_prod_beta)
    with True show ?thesis
      unfolding dedup_step_def by (auto simp: fetches_def)
  qed
qed

lemma dedup_update [simp]: "dedup_step k s (snd (update w it True s))"
  by (simp add: update_def case_prod_beta split: option.split sum.split body.split)

lemma dedup_current_epgservice [simp]: "dedup_step k s (snd (current_epgservice w r s))"
  by (simp add: current_epgservice_def dedup_uncached [OF epgservice_frame(1) _ epgservice_frame(2)])

lemma dedup_event_from_subservices [simp]:
  "dedup_step k s (snd (event_from_subservices w it dt xml s))"
proof -
  have "dedup_step k s (snd (write_current_event w it dt xml r s))
      = dedup_step k s (snd (current_epgservice w r s))" for r
    by (rule dedup_same) simp_all
  then have "dedup_step k s (snd (write_current_event w it dt xml r s))" for r
    by simp
  then show ?thesis
    by (simp add: event_from_subservices_def split: list.split sum.split)
qed

lemma dedup_update_current_event [simp]: "dedup_step k s (snd (update_current_event w it True s))"
proof -
  have "dedup_step k s (snd (event_from_subservices w it dt xml (snd (cached_get_request w k' u True s))))"
    for dt xml k' u
    by (rule dedup_trans [OF dedup_cached_get_request dedup_event_from_subservices])
  then show ?thesis
    by (simp add: update_current_event_def case_prod_beta split: option.split sum.split body.split)
qed

lemma dedup_update_event_items_loop [simp]:
  "dedup_step k s (snd (update_event_items_loop w True its s))"
proof (induction its arbitrary: s)
  case Nil
  show ?case by simp
next
  case (Cons it its)
  have "dedup_step k s (snd (update_event_items_loop w True its (snd (update_current_event w it True s))))"
    by (rule dedup_trans [OF dedup_update_current_event Cons.IH])
  with Cons.IH [of s] show ?case
    by (simp add: case_prod_beta split: option.split sum.split)
qed

lemma dedup_update_volume [simp]: "dedup_step k s (snd (update_volume w it c s))"
proof -
  let ?u = "build_url (enigma2_device s) (url_suffix ''getcurrent'') []"
  have "requests (snd (update_volume w it c s)) =
      requests s @ [\<lparr>req_key = None, req_url = ?u, req_ok = (box w (length (requests s)) ?u \<noteq> Failure)\<rparr>]"
    by (simp add: update_volume_def case_prod_beta split: reply.split body.split sum.split option.split)
  then show ?thesis
    by (rule dedup_uncached) simp_all
qed

lemma dedup_update_event_items [simp]: "dedup_step k s (snd (update_event_items w True s))"
proof -
  have "dedup_step k s (s\<lparr>event_passes := event_passes s @ [True]\<rparr>)"
    by (simp add: dedup_step_def fetches_def)
  from dedup_trans [OF this dedup_update_event_items_loop] show ?thesis
    by (simp add: update_event_items_def)
qed

lemma dedup_update_fast_item [simp]: "dedup_step k s (snd (update_fast_item w True it s))"
  by (simp add: update_fast_item_def split: option.split)

lemma dedup_update_loop_items [simp]: "dedup_step k s (snd (update_loop_items w its s))"
proof (induction its arbitrary: s)
  case Nil
  show ?case by simp
next
  case (Cons it its)
  have "dedup_step k s (snd (update_loop_items w its (snd (update w it True s))))"
    by (rule dedup_trans [OF dedup_update Cons.IH])
  then show ?case
    by (simp add: case_prod_beta split: option.split sum.split bool.split)
qed

lemma dedup_update_loop_fast_items [simp]:
  "dedup_step k s (snd (update_loop_fast_items w True its s))"
proof (induction its arbitrary: s)
  case Nil
  show ?case by simp
next
  case (Cons it its)
  have "dedup_step k s (snd (update_loop_fast_items w True its (snd (update_fast_item w True it s))))"
    by (rule dedup_trans [OF dedup_update_fast_item Cons.IH])
  then show ?case
    by (simp add: case_prod_beta split: option.split sum.split bool.split)
qed

lemma dedup_step_requests:
  assumes "dedup_step k s s'"
  shows "\<forall>r\<in>set (butlast (fetches k (drop (length (requests s)) (requests s')))). \<not> req_ok r"
proof -
  from assms obtain ls where "requests s' = requests s @ ls"
    and "if response_cache s k \<noteq> None then response_cache s' k \<noteq> None \<and> fetches k ls = []
         else if response_cache s' k \<noteq> None then (\<forall>r\<in>set (butlast (fetches k ls)). \<not> req_ok r)
         else (\<forall>r\<in>set (fetches k ls). \<not> req_ok r)"
    unfolding dedup_step_def by blast
  then show ?thesis
    by (auto split: if_splits dest: in_set_butlastD)
qed

lemma at_most_one_passes:
  assumes "\<forall>r\<in>set (butlast xs). \<not> P r"
  shows "length (filter P xs) \<le> 1"
proof (cases xs rule: rev_cases)
  case Nil
  then show ?thesis by simp
next
  case (snoc ys y)
  with assms have "filter P ys = []" by (simp add: filter_empty_conv)
  with snoc show ?thesis by simp
qed

text \<open>
  C1, as the code has it. In one invocation of the slow cycle, or of the fast cycle
  with caching enabled, and for every key \<open>k\<close>: of the requests that
  \<^verbatim>\<open>_cached_get_request\<close> sends for \<open>k\<close> during the invocation, every one but the last
  has failed. So at most one of them is answered, and none follows an answered one; a
  failed one is not remembered, and the next binding with the key asks again.
\<close>

theorem cached_fetch_deduplicated:
  "(\<forall>r\<in>set (butlast (fetches k (drop (length (requests s)) (requests (snd (update_loop w s)))))).
       \<not> req_ok r)
   \<and> length (filter req_ok
        (fetches k (drop (length (requests s)) (requests (snd (update_loop w s)))))) \<le> 1
   \<and> (\<forall>r\<in>set (butlast
         (fetches k (drop (length (requests s)) (requests (snd (update_loop_fast w True s)))))).
       \<not> req_ok r)
   \<and> length (filter req_ok
        (fetches k (drop (length (requests s)) (requests (snd (update_loop_fast w True s)))))) \<le> 1"
proof -
  have "requests (snd (update_loop w s)) = requests (snd (update_loop_items w (items (enigma2_device s)) s))"
    by (simp add: update_loop_def case_prod_beta split: sum.split bool.split)
  with dedup_step_requests [OF dedup_update_loop_items, of k s w "items (enigma2_device s)"]
  have slow: "\<forall>r\<in>set (butlast (fetches k (drop (length (requests s))
      (requests (snd (update_loop w s)))))). \<not> req_ok r"
    by simp
  have "requests (snd (update_loop_fast w True s)) =
      requests (snd (update_loop_fast_items w True (items_fast (enigma2_device s)) s))"
    by (simp add: update_loop_fast_def case_prod_beta split: sum.split bool.split)
  with dedup_step_requests [OF dedup_update_loop_fast_items, of k s w "items_fast (enigma2_device s)"]
  have fast: "\<forall>r\<in>set (butlast (fetches k (drop (length (requests s))
      (requests (snd (update_loop_fast w True s)))))). \<not> req_ok r"
    by simp
  from slow fast at_most_one_passes [OF slow] at_most_one_passes [OF fast] show ?thesis
    by blast
qed

theorem cached_fetch_deduplicated_witness:
  "map req_ok (fetches ''about'' (requests (snd (update_loop (world_of (unreachable_for 1 (tv_box ''N/A'')))
      (engine_with [paged 1 ''about'' ''e2model'' ''str'', paged 2 ''about'' ''e2enigmaversion'' ''str'',
         paged 3 ''about'' ''e2lanmac'' ''str''])))))
     = [False, True]
   \<and> length (filter req_ok (fetches ''about'' (drop 0
        (requests (snd (update_loop (world_of (unreachable_for 1 (tv_box ''N/A'')))
          (engine_with [paged 1 ''about'' ''e2model'' ''str'', paged 2 ''about'' ''e2enigmaversion'' ''str'',
             paged 3 ''about'' ''e2lanmac'' ''str'']))))))) \<le> 1
   \<and> slots (snd (update_loop (world_of (unreachable_for 1 (tv_box ''N/A'')))
      (engine_with [paged 1 ''about'' ''e2model'' ''str'', paged 2 ''about'' ''e2enigmaversion'' ''str'',
         paged 3 ''about'' ''e2lanmac'' ''str'']))) 3 = Some (PStr ''-'')"
proof -
  let ?w = "world_of (unreachable_for 1 (tv_box ''N/A''))"
  let ?s = "engine_with [paged 1 ''about'' ''e2model'' ''str'', paged 2 ''about'' ''e2enigmaversion'' ''str'',
         paged 3 ''about'' ''e2lanmac'' ''str'']"
  have start: "length (requests ?s) = 0"
    by (simp add: demo_defs)
  have run: "map req_ok (fetches ''about'' (requests (snd (update_loop ?w ?s)))) = [False, True]"
    and written: "slots (snd (update_loop ?w ?s)) 3 = Some (PStr ''-'')"
    by (simp_all add: demo_defs run_defs unreachable_for_def fetches_def)
  from cached_fetch_deduplicated [of "''about''" ?s ?w]
  have "length (filter req_ok (fetches ''about'' (drop (length (requests ?s))
      (requests (snd (update_loop ?w ?s)))))) \<le> 1"
    by blast
  with start run written show ?thesis by simp
qed

text \<open>
  C1 as stated fails: two bindings of the slow registry share the key
  \<^verbatim>\<open>about\<close> and the box is unreachable; the cycle sends the request for the key
  twice.
\<close>

theorem cached_fetch_repeated_counterexample:
  "map req_key (requests (snd (update_loop (world_of (reachable_for 0 (tv_box ''N/A'')))
      (engine_with [paged 1 ''about'' ''e2model'' ''str'', paged 2 ''about'' ''e2enigmaversion'' ''str'']))))
     = [Some ''about'', Some ''about'']
   \<and> \<not> length (fetches ''about'' (requests (snd (update_loop (world_of (reachable_for 0 (tv_box ''N/A'')))
      (engine_with [paged 1 ''about'' ''e2model'' ''str'', paged 2 ''about'' ''e2enigmaversion'' ''str'']))))) \<le> 1"
  by (simp add: demo_defs run_defs fetches_def)

end
